theory Spec2Isabelle
  imports Main "HOL-Library.Sublist"
begin

section \<open>Strings\<close>

text \<open>
  A JavaScript string is modelled as a \<^typ>\<open>string\<close>. Every literal of the source is
  ASCII, except the emoji glyphs of the default type table: those are written as the
  bytes of their UTF-8 encoding. They are only displayed in the type prompt; the program
  never measures or compares them.
\<close>

text \<open>\<^verbatim>\<open>s.split(c)\<close> for a separator of one character: the pieces between the
  separators, so a string without the separator (the empty one too) gives one piece.\<close>

fun split_on :: "char \<Rightarrow> string \<Rightarrow> string list" where
  "split_on c [] = [[]]"
| "split_on c (x # xs) =
     (if x = c then [] # split_on c xs
      else (case split_on c xs of
              [] \<Rightarrow> [[x]]
            | w # ws \<Rightarrow> (x # w) # ws))"

text \<open>\<^verbatim>\<open>xs.join(sep)\<close>.\<close>

fun join :: "string \<Rightarrow> string list \<Rightarrow> string" where
  "join sep [] = []"
| "join sep [x] = x"
| "join sep (x # y # ys) = x @ sep @ join sep (y # ys)"

text \<open>\<^verbatim>\<open>s.trim()\<close>: white space and line terminators are removed at both ends. Of the
  characters JavaScript counts as such, the ASCII ones are tab, line feed, vertical tab,
  form feed, carriage return and space.\<close>

definition isWhiteSpace :: "char \<Rightarrow> bool" where
  "isWhiteSpace c =
     (c = CHR 0x09 \<or> c = CHR ''\<newline>'' \<or> c = CHR 0x0B \<or> c = CHR 0x0C \<or> c = CHR 0x0D \<or> c = CHR '' '')"

definition trim :: "string \<Rightarrow> string" where
  "trim s = rev (dropWhile isWhiteSpace (rev (dropWhile isWhiteSpace s)))"

section \<open>Hard wrapping\<close>

text \<open>
  Modelled from the spec: \<^verbatim>\<open>wrap\<close> is the function of the package \<^verbatim>\<open>wrap-ansi\<close>, which
  \<^verbatim>\<open>extension.ts\<close> imports and whose code is not part of the source tree. The spec
  describes the call \<^verbatim>\<open>wrap(text, 72, {hard: true})\<close> as hard-wrapping to 72 columns: no
  line exceeds the width, a line is broken between words, and a single token wider than
  the width is split inside the word. The model below is that description, one column
  per character: every line of the text is wrapped on its own; words are the pieces
  between spaces; a word is added to the current row when it fits after a space,
  otherwise the row is closed and the word starts the next one; a word longer than the
  width is cut into full-width pieces.
\<close>

text \<open>Modelled from the spec: a token wider than the line is split inside the word. A
  word is cut into pieces of \<open>cols\<close> characters, the last one holding what remains.\<close>

function chunks :: "nat \<Rightarrow> string \<Rightarrow> string list" where
  "chunks cols w =
     (if cols = 0 \<or> length w \<le> cols then [w]
      else take cols w # chunks cols (drop cols w))"
  by pat_completeness auto
termination
  by (relation "measure (\<lambda>(cols, w). length w)") auto

declare chunks.simps [simp del]

text \<open>Modelled from the spec: lines are broken between words and no line exceeds the
  width. These are the rows made from the current row and the words still to place.\<close>

fun wrap_words :: "nat \<Rightarrow> string \<Rightarrow> string list \<Rightarrow> string list" where
  "wrap_words cols row [] = [row]"
| "wrap_words cols row (w # ws) =
     (if length row + 1 + length w \<le> cols then wrap_words cols (row @ '' '' @ w) ws
      else row # butlast (chunks cols w) @ wrap_words cols (last (chunks cols w)) ws)"

text \<open>Modelled from the spec: the rows of one line of the text.\<close>

definition wrap_line :: "nat \<Rightarrow> string \<Rightarrow> string list" where
  "wrap_line cols line =
     (case split_on CHR '' '' line of
        [] \<Rightarrow> [[]]
      | w # ws \<Rightarrow> butlast (chunks cols w) @ wrap_words cols (last (chunks cols w)) ws)"

text \<open>Modelled from the spec: \<^verbatim>\<open>wrap(text, cols, {hard: true})\<close>, every line of the text
  wrapped on its own.\<close>

definition wrap :: "string \<Rightarrow> nat \<Rightarrow> string" where
  "wrap text cols =
     join ''\<newline>'' (concat (map (wrap_line cols) (split_on CHR ''\<newline>'' text)))"

section \<open>Data model\<close>

text \<open>A JavaScript value as the wizard meets it: \<^verbatim>\<open>undefined\<close>, a string, or an object
  that is not a string (a scope entry used as a label, see \<open>getScopePicks\<close>).\<close>

datatype jsvalue = Undefined | Str string | Object

text \<open>Truthiness (\<^verbatim>\<open>Boolean(v)\<close>, \<^verbatim>\<open>v ? a : b\<close>, \<^verbatim>\<open>v || w\<close>).\<close>

fun truthy :: "jsvalue \<Rightarrow> bool" where
  "truthy Undefined = False"
| "truthy (Str s) = (s \<noteq> [])"
| "truthy Object = True"

text \<open>The string a value becomes in a template literal or under \<^verbatim>\<open>+\<close> with a string.\<close>

fun to_string :: "jsvalue \<Rightarrow> string" where
  "to_string Undefined = ''undefined''"
| "to_string (Str s) = s"
| "to_string Object = ''[object Object]''"

text \<open>An entry of \<^verbatim>\<open>CzConfig.types\<close>.\<close>

record cz_type =
  type_value :: string
  type_name :: string
  type_emoji :: string
  type_emojiCode :: string

text \<open>An entry of \<^verbatim>\<open>CzConfig.scopes\<close>: an object with an optional \<^verbatim>\<open>name\<close>, a plain
  string (the cast \<^verbatim>\<open>scope as string\<close> of \<open>getScopePicks\<close> serves those), or
  \<^verbatim>\<open>undefined\<close> (which \<open>getScope\<close> tests for at index 0).\<close>

datatype scope_entry = ScopeUndefined | ScopeString string | ScopeObject "string option"

text \<open>\<^verbatim>\<open>CzConfig\<close>. The file it is read from is not validated, and the code tests
  \<^verbatim>\<open>types\<close>, \<^verbatim>\<open>scopes\<close>, \<^verbatim>\<open>messages\<close>, \<^verbatim>\<open>footerPrefix\<close> and \<^verbatim>\<open>skipQuestions\<close> for
  presence, so these are optional here. \<^verbatim>\<open>messages\<close> is an object used as a dictionary
  from message type to text.\<close>

record cz_config =
  types :: "cz_type list option"
  scopes :: "scope_entry list option"
  messages :: "(string \<times> string) list option"
  allowCustomScopes :: bool
  allowBreakingChanges :: "string list"
  footerPrefix :: "string option"
  skipQuestions :: "string list option"

text \<open>\<^verbatim>\<open>vscode.QuickPickItem\<close>, as far as it is used.\<close>

record pick =
  label :: jsvalue
  description :: string

text \<open>The fields of a \<^verbatim>\<open>ConventionalCommitMessage\<close>. A field that was never assigned
  is \<open>Undefined\<close>. (\<open>next\<close> and \<open>type\<close> are written \<open>next_step\<close> and \<open>type_answer\<close>.)\<close>

record ccm =
  czConfig :: "cz_config option"
  next_step :: bool
  type_answer :: jsvalue
  scope :: jsvalue
  subject :: jsvalue
  body :: jsvalue
  breaking :: jsvalue
  footer :: jsvalue

text \<open>The constructor.\<close>

definition new_ccm :: "cz_config option \<Rightarrow> ccm" where
  "new_ccm cfg =
     \<lparr>czConfig = cfg, next_step = True, type_answer = Undefined, scope = Undefined,
      subject = Undefined, body = Undefined, breaking = Undefined, footer = Undefined\<rparr>"

text \<open>What a wizard step asks of the host: a quick pick with its place holder and its
  items, or an input box with its place holder.\<close>

datatype event = ShowQuickPick jsvalue "pick list" | ShowInputBox jsvalue

text \<open>The exception the wizard can raise: reading a property of \<^verbatim>\<open>undefined\<close>.\<close>

datatype error = TypeError

section \<open>Built-in tables\<close>

definition DEFAULT_TYPES :: "cz_type list" where
  "DEFAULT_TYPES =
    [\<lparr>type_value = ''feat'',
      type_name = ''       : '' @ [CHR 0xE2, CHR 0x9C, CHR 0xA8] @ '' A new feature'',
      type_emoji = [CHR 0xE2, CHR 0x9C, CHR 0xA8],
      type_emojiCode = '':sparkles:''\<rparr>,
     \<lparr>type_value = ''fix'',
      type_name = ''        : '' @ [CHR 0xF0, CHR 0x9F, CHR 0x90, CHR 0x9B] @ '' A bug fix'',
      type_emoji = [CHR 0xF0, CHR 0x9F, CHR 0x90, CHR 0x9B],
      type_emojiCode = '':bug:''\<rparr>,
     \<lparr>type_value = ''docs'',
      type_name = ''      : '' @ [CHR 0xF0, CHR 0x9F, CHR 0x93, CHR 0x96] @ '' Documentation only changes'',
      type_emoji = [CHR 0xF0, CHR 0x9F, CHR 0x93, CHR 0x96],
      type_emojiCode = '':pencil:''\<rparr>,
     \<lparr>type_value = ''style'',
      type_name = ''     : '' @ [CHR 0xF0, CHR 0x9F, CHR 0x92, CHR 0x84] @
        '' Changes that do not affect the meaning of the code (white-space, formatting, missing semi-colons, etc)'',
      type_emoji = [CHR 0xF0, CHR 0x9F, CHR 0x92, CHR 0x84],
      type_emojiCode = '':lipstick:''\<rparr>,
     \<lparr>type_value = ''refactor'',
      type_name = '' : '' @ [CHR 0xF0, CHR 0x9F, CHR 0x93, CHR 0xA6] @
        '' A code change that neither fixes a bug nor adds a feature'',
      type_emoji = [CHR 0xF0, CHR 0x9F, CHR 0x93, CHR 0xA6],
      type_emojiCode = '':package:''\<rparr>,
     \<lparr>type_value = ''perf'',
      type_name = ''      : '' @ [CHR 0xF0, CHR 0x9F, CHR 0x9A, CHR 0x80] @
        '' A code change that improves performance'',
      type_emoji = [CHR 0xF0, CHR 0x9F, CHR 0x9A, CHR 0x80],
      type_emojiCode = '':rocket:''\<rparr>,
     \<lparr>type_value = ''test'',
      type_name = ''      : '' @ [CHR 0xF0, CHR 0x9F, CHR 0x9A, CHR 0xA8] @
        '' Adding missing tests or correcting existing tests'',
      type_emoji = [CHR 0xF0, CHR 0x9F, CHR 0x9A, CHR 0xA8],
      type_emojiCode = '':rotating_light:''\<rparr>,
     \<lparr>type_value = ''build'',
      type_name = ''     : '' @ [CHR 0xF0, CHR 0x9F, CHR 0x91, CHR 0xB7] @
        '' Changes that affect the build system or external dependencies (example scopes: gulp, broccoli, npm)'',
      type_emoji = [CHR 0xF0, CHR 0x9F, CHR 0x91, CHR 0xB7],
      type_emojiCode = '':construction_worker:''\<rparr>,
     \<lparr>type_value = ''ci'',
      type_name = ''         : '' @ [CHR 0xF0, CHR 0x9F, CHR 0x92, CHR 0xBB] @
        '' Changes to our CI configuration files and scripts (example scopes: Travis, Circle, BrowserStack, SauceLabs)'',
      type_emoji = [CHR 0xF0, CHR 0x9F, CHR 0x92, CHR 0xBB],
      type_emojiCode = '':computer:''\<rparr>,
     \<lparr>type_value = ''chore'',
      type_name = ''    : '' @ [CHR 0xF0, CHR 0x9F, CHR 0x8E, CHR 0xAB] @
        '' Other changes that don'' @ [CHR 0x27] @ ''t modify src or test files'',
      type_emoji = [CHR 0xF0, CHR 0x9F, CHR 0x8E, CHR 0xAB],
      type_emojiCode = '':ticket:''\<rparr>]"

definition DEFAULT_MESSAGES :: "(string \<times> string) list" where
  "DEFAULT_MESSAGES =
    [(''type'', ''Select the type of change that you'' @ [CHR 0x27] @ ''re committing''),
     (''customScope'', ''Denote the SCOPE of this change''),
     (''customScopeEntry'', ''Custom scope...''),
     (''scope'', ''Denote the SCOPE of this change (optional)''),
     (''subject'', ''Write a SHORT, IMPERATIVE tense description of the change''),
     (''body'', ''Provide a LONGER description of the change (optional). Use '' @ [CHR 0x22] @ ''|'' @
        [CHR 0x22] @ '' to break new line''),
     (''breaking'', ''List any BREAKING CHANGES (optional)''),
     (''footer'', ''List any ISSUES CLOSED by this change (optional). E.g.: #31, #34'')]"

section \<open>Prompts\<close>

text \<open>
  The host's answers are arguments of the model: \<open>picked\<close> is what
  \<^verbatim>\<open>showQuickPick\<close> resolves to and \<open>input\<close> what \<^verbatim>\<open>showInputBox\<close> resolves to, \<open>None\<close>
  for \<^verbatim>\<open>undefined\<close> (the prompt was dismissed). A \<open>save\<close> callback assigns a field of
  the message object, so it is a function on \<^typ>\<open>ccm\<close>. A prompt returns the requests
  it made of the host, the boolean it resolves to, and the object after the callback.
\<close>

text \<open>\<^verbatim>\<open>===\<close>: an object is only equal to itself, and no object is compared with itself
  here.\<close>

fun strict_equals :: "jsvalue \<Rightarrow> jsvalue \<Rightarrow> bool" where
  "strict_equals Undefined Undefined = True"
| "strict_equals (Str a) (Str b) = (a = b)"
| "strict_equals _ _ = False"

definition ask ::
  "jsvalue \<Rightarrow> (string \<Rightarrow> ccm \<Rightarrow> ccm) \<Rightarrow> (string \<Rightarrow> string) option \<Rightarrow> string option \<Rightarrow> ccm
    \<Rightarrow> event list \<times> bool \<times> ccm" where
  "ask question save validate input s =
     (case input of
        None \<Rightarrow> ([ShowInputBox question], False, s)
      | Some i \<Rightarrow> ([ShowInputBox question], True, save i s))"

definition askOneOf ::
  "jsvalue \<Rightarrow> pick list \<Rightarrow> (pick \<Rightarrow> ccm \<Rightarrow> ccm) \<Rightarrow> jsvalue \<Rightarrow> jsvalue \<Rightarrow> pick option \<Rightarrow> string option
    \<Rightarrow> ccm \<Rightarrow> event list \<times> bool \<times> ccm" where
  "askOneOf question picks save customLabel customQuestion picked input s =
     (case picked of
        None \<Rightarrow> ([ShowQuickPick question picks], False, s)
      | Some p \<Rightarrow>
          if strict_equals (label p) customLabel \<and> truthy customQuestion then
            (case ask (if truthy customQuestion then customQuestion else Str [])
                    (\<lambda>i. save \<lparr>label = Str i, description = []\<rparr>) None input s of
               (ev, nxt, s') \<Rightarrow> (ShowQuickPick question picks # ev, nxt, s'))
          else ([ShowQuickPick question picks], True, save p s))"

section \<open>The wizard\<close>

definition shouldSkip :: "cz_config option \<Rightarrow> string \<Rightarrow> bool" where
  "shouldSkip cfg messageType =
     (case cfg of
        None \<Rightarrow> False
      | Some c \<Rightarrow> (case skipQuestions c of None \<Rightarrow> False | Some qs \<Rightarrow> messageType \<in> set qs))"

definition hasScopes :: "cz_config option \<Rightarrow> bool" where
  "hasScopes cfg =
     (case cfg of
        None \<Rightarrow> False
      | Some c \<Rightarrow> (case scopes c of None \<Rightarrow> False | Some ss \<Rightarrow> length ss \<noteq> 0))"

definition hasCustomMessage :: "cz_config option \<Rightarrow> string \<Rightarrow> bool" where
  "hasCustomMessage cfg messageType =
     (case cfg of
        None \<Rightarrow> False
      | Some c \<Rightarrow> (case messages c of None \<Rightarrow> False | Some ms \<Rightarrow> messageType \<in> fst ` set ms))"

text \<open>\<^verbatim>\<open>obj[key]\<close> on a dictionary of strings.\<close>

definition property :: "(string \<times> string) list \<Rightarrow> string \<Rightarrow> jsvalue" where
  "property obj key = (case map_of obj key of None \<Rightarrow> Undefined | Some v \<Rightarrow> Str v)"

text \<open>\<^verbatim>\<open>this.inputMessage(messageType)\<close>: the method called on the message object.\<close>

definition inputMessage :: "ccm \<Rightarrow> string \<Rightarrow> jsvalue" where
  "inputMessage s messageType =
     (if hasCustomMessage (czConfig s) messageType then
        (case czConfig s of
           None \<Rightarrow> Undefined
         | Some c \<Rightarrow> (case messages c of None \<Rightarrow> Undefined | Some ms \<Rightarrow> property ms messageType))
      else property DEFAULT_MESSAGES messageType)"

text \<open>
  The method called with \<open>receiver\<close> as its \<^verbatim>\<open>this\<close>. \<open>getScope\<close> hands the method to
  \<open>getScopePicks\<close> as the value \<^verbatim>\<open>this.inputMessage\<close>, and \<open>getScopePicks\<close> calls that
  value as a plain function. The file is a module, so its code is strict: in such a call
  \<^verbatim>\<open>this\<close> is \<^verbatim>\<open>undefined\<close> (\<open>None\<close>), and the method's first step, reading
  \<^verbatim>\<open>this.czConfig\<close>, raises a TypeError.
\<close>

definition inputMessage_call :: "ccm option \<Rightarrow> string \<Rightarrow> error + jsvalue" where
  "inputMessage_call receiver messageType =
     (case receiver of
        None \<Rightarrow> Inl TypeError
      | Some s \<Rightarrow> Inr (inputMessage s messageType))"

text \<open>\<^verbatim>\<open>xs.map(f)\<close> for a callback that may raise: the first exception ends the map.\<close>

fun map_result :: "('a \<Rightarrow> error + 'b) \<Rightarrow> 'a list \<Rightarrow> error + 'b list" where
  "map_result f [] = Inr []"
| "map_result f (x # xs) =
     (case f x of
        Inl e \<Rightarrow> Inl e
      | Inr y \<Rightarrow> (case map_result f xs of Inl e \<Rightarrow> Inl e | Inr ys \<Rightarrow> Inr (y # ys)))"

text \<open>\<^verbatim>\<open>scope.name || scope\<close>: the name when it is a non-empty string, else the entry
  itself (a string has no \<^verbatim>\<open>name\<close>); reading \<^verbatim>\<open>name\<close> of \<^verbatim>\<open>undefined\<close> raises.\<close>

fun scope_label :: "scope_entry \<Rightarrow> error + jsvalue" where
  "scope_label ScopeUndefined = Inl TypeError"
| "scope_label (ScopeString s) = Inr (Str s)"
| "scope_label (ScopeObject None) = Inr Object"
| "scope_label (ScopeObject (Some n)) = Inr (if n \<noteq> [] then Str n else Object)"

definition getScopePicks :: "cz_config \<Rightarrow> (string \<Rightarrow> error + jsvalue) \<Rightarrow> error + pick list" where
  "getScopePicks c inputMessage' =
     (case scopes c of
        None \<Rightarrow> Inl TypeError
      | Some ss \<Rightarrow>
          (case map_result
                  (\<lambda>sc. case scope_label sc of
                           Inl e \<Rightarrow> Inl e
                         | Inr l \<Rightarrow> Inr \<lparr>label = l, description = []\<rparr>) ss of
             Inl e \<Rightarrow> Inl e
           | Inr scopePicks \<Rightarrow>
               if allowCustomScopes c then
                 (case inputMessage' ''customScopeEntry'' of
                    Inl e \<Rightarrow> Inl e
                  | Inr l \<Rightarrow> Inr (scopePicks @ [\<lparr>label = l, description = []\<rparr>]))
               else Inr scopePicks))"

text \<open>The item shown for a type: \<^verbatim>\<open>type => ({label: type.value, description: type.name})\<close>.\<close>

definition type_pick :: "cz_type \<Rightarrow> pick" where
  "type_pick t = \<lparr>label = Str (type_value t), description = type_name t\<rparr>"

definition getType :: "ccm \<Rightarrow> pick option \<Rightarrow> event list \<times> ccm" where
  "getType s picked =
     (if next_step s then
        (let types' = (case czConfig s of
                         None \<Rightarrow> DEFAULT_TYPES
                       | Some c \<Rightarrow> (case types c of None \<Rightarrow> DEFAULT_TYPES | Some ts \<Rightarrow> ts));
             typePicks = map type_pick types'
         in case askOneOf (inputMessage s ''type'') typePicks (\<lambda>p st. st\<lparr>type_answer := label p\<rparr>)
                   Undefined Undefined picked None s of
              (ev, nxt, s') \<Rightarrow> (ev, s'\<lparr>next_step := nxt\<rparr>))
      else ([], s))"

definition getScope :: "ccm \<Rightarrow> pick option \<Rightarrow> string option \<Rightarrow> error + event list \<times> ccm" where
  "getScope s picked input =
     (if next_step s then
        if hasScopes (czConfig s) then
          (case czConfig s of
             None \<Rightarrow> Inr ([], s)
           | Some c \<Rightarrow>
               (case scopes c of
                  Some (first # rest) \<Rightarrow>
                    if first \<noteq> ScopeUndefined then
                      (case getScopePicks c (inputMessage_call None) of
                         Inl e \<Rightarrow> Inl e
                       | Inr scopePicks \<Rightarrow>
                           (case askOneOf (inputMessage s ''customScope'') scopePicks
                                   (\<lambda>p st. st\<lparr>scope := (if truthy (label p) then label p else Undefined)\<rparr>)
                                   (inputMessage s ''customScopeEntry'') (inputMessage s ''customScope'')
                                   picked input s of
                              (ev, nxt, s') \<Rightarrow> Inr (ev, s'\<lparr>next_step := nxt\<rparr>)))
                    else Inr ([], s)
                | _ \<Rightarrow> Inr ([], s)))
        else if \<not> shouldSkip (czConfig s) ''scope'' then
          (case ask (inputMessage s ''scope'') (\<lambda>i st. st\<lparr>scope := Str i\<rparr>) None input s of
             (ev, nxt, s') \<Rightarrow> Inr (ev, s'\<lparr>next_step := nxt\<rparr>))
        else Inr ([], s)
      else Inr ([], s))"

text \<open>A number in a template literal (a non-negative integer: decimal digits).\<close>

fun show_nat :: "nat \<Rightarrow> string" where
  "show_nat n =
     (if n < 10 then [char_of (48 + n)]
      else show_nat (n div 10) @ [char_of (48 + n mod 10)])"

declare show_nat.simps [simp del]

definition validator :: "nat \<Rightarrow> string \<Rightarrow> string" where
  "validator maxLength input =
     (if length input = 0 \<or> length input > maxLength then
        ''Subject is required and must be less than '' @ show_nat maxLength @ '' characters''
      else [])"

text \<open>\<open>maxLength\<close> is the setting \<^verbatim>\<open>commitizen.subjectLength\<close>. The host applies the
  validator while the box is open; what \<open>ask\<close> receives is the box's result.\<close>

definition getSubject :: "ccm \<Rightarrow> nat \<Rightarrow> string option \<Rightarrow> event list \<times> ccm" where
  "getSubject s maxLength input =
     (if next_step s then
        (case ask (inputMessage s ''subject'') (\<lambda>i st. st\<lparr>subject := Str i\<rparr>)
                (Some (validator maxLength)) input s of
           (ev, nxt, s') \<Rightarrow> (ev, s'\<lparr>next_step := nxt\<rparr>))
      else ([], s))"

definition getBody :: "ccm \<Rightarrow> string option \<Rightarrow> event list \<times> ccm" where
  "getBody s input =
     (if next_step s \<and> \<not> shouldSkip (czConfig s) ''body'' then
        (case ask (inputMessage s ''body'')
                (\<lambda>i st. st\<lparr>body := Str (wrap (join ''\<newline>'' (split_on CHR ''|'' i)) 72)\<rparr>)
                None input s of
           (ev, nxt, s') \<Rightarrow> (ev, s'\<lparr>next_step := nxt\<rparr>))
      else ([], s))"

definition getBreaking :: "ccm \<Rightarrow> string option \<Rightarrow> event list \<times> ccm" where
  "getBreaking s input =
     (if next_step s \<and> \<not> shouldSkip (czConfig s) ''breaking'' then
        (case ask (inputMessage s ''breaking'') (\<lambda>i st. st\<lparr>breaking := Str i\<rparr>) None input s of
           (ev, nxt, s') \<Rightarrow> (ev, s'\<lparr>next_step := nxt\<rparr>))
      else ([], s))"

definition getFooter :: "ccm \<Rightarrow> string option \<Rightarrow> event list \<times> ccm" where
  "getFooter s input =
     (if next_step s \<and> \<not> shouldSkip (czConfig s) ''footer'' then
        (case ask (inputMessage s ''footer'') (\<lambda>i st. st\<lparr>footer := Str i\<rparr>) None input s of
           (ev, nxt, s') \<Rightarrow> (ev, s'\<lparr>next_step := nxt\<rparr>))
      else ([], s))"

definition complete :: "ccm \<Rightarrow> bool" where
  "complete s = (next_step s \<and> truthy (type_answer s) \<and> truthy (subject s))"

section \<open>The message\<close>

definition messageFooter :: "ccm \<Rightarrow> string" where
  "messageFooter s =
     (if truthy (footer s) then
        (case czConfig s of
           None \<Rightarrow> ''Closes ''
         | Some c \<Rightarrow>
             (case footerPrefix c of
                None \<Rightarrow> ''Closes ''
              | Some p \<Rightarrow> if p \<noteq> [] then p else ''Closes '')) @ to_string (footer s)
      else [])"

text \<open>The scope part of the header:
  \<^verbatim>\<open>typeof this.scope === 'string' && this.scope ? `(${this.scope})` : ''\<close>.\<close>

fun scope_segment :: "jsvalue \<Rightarrow> string" where
  "scope_segment (Str sc) = (if sc \<noteq> [] then ''('' @ sc @ '')'' else [])"
| "scope_segment _ = []"

text \<open>The getter \<^verbatim>\<open>message\<close>. \<^verbatim>\<open>czTypes\<close> is \<^verbatim>\<open>undefined\<close> when there is no configuration or
  the configuration has no \<^verbatim>\<open>types\<close>; the non-null assertion \<^verbatim>\<open>czTypes!\<close> is erased by
  the compiler, and \<^verbatim>\<open>.filter\<close> of \<^verbatim>\<open>undefined\<close> raises a TypeError.\<close>

definition message :: "ccm \<Rightarrow> error + string" where
  "message s =
     (case (case czConfig s of None \<Rightarrow> None | Some c \<Rightarrow> types c) of
        None \<Rightarrow> Inl TypeError
      | Some czTypes \<Rightarrow>
          (let emojiEntry = filter (\<lambda>eachEmoji. strict_equals (Str (type_value eachEmoji)) (type_answer s)) czTypes;
               emoji = (case emojiEntry of [] \<Rightarrow> [] | e # _ \<Rightarrow> type_emojiCode e)
           in Inr (to_string (type_answer s) @ scope_segment (scope s) @
                   '': '' @ emoji @ '' '' @ to_string (subject s) @ ''\<newline>\<newline>'' @
                   to_string (body s) @ ''\<newline>\<newline>'' @
                   (if truthy (breaking s) then ''BREAKING CHANGE: '' @ to_string (breaking s) @ ''\<newline>''
                    else []) @
                   messageFooter s)))"

section \<open>Committing\<close>

text \<open>The settings \<^verbatim>\<open>commitizen.*\<close> (the interface \<^verbatim>\<open>Configuration\<close>).\<close>

datatype output_mode = Off | Always | OnError

record configuration =
  autoSync :: bool
  subjectLength :: nat
  showOutputChannel :: output_mode

text \<open>What \<^verbatim>\<open>execa\<close> resolves to, as far as it is read: the exit status (a process exit
  status is a non-negative integer) and the standard output.\<close>

record execa_result =
  code :: nat
  stdout :: string

text \<open>An exception caught by \<open>commit\<close>: its \<^verbatim>\<open>message\<close> and its \<^verbatim>\<open>stack\<close>.\<close>

record failure =
  failure_message :: string
  failure_stack :: string

text \<open>
  The host during one commit: the settings, and what each awaited call resolves to
  (\<open>Inr\<close>) or is rejected with (\<open>Inl\<close>). \<open>enableSmartCommit\<close> is the setting
  \<^verbatim>\<open>git.enableSmartCommit\<close>, \<open>None\<close> when it is not set.
\<close>

record host =
  commitizen :: configuration
  enableSmartCommit :: "bool option"
  git_diff :: "failure + execa_result"
  git_stageAll :: "failure + unit"
  git_commit :: "failure + execa_result"
  git_refresh :: "failure + unit"
  git_sync :: "failure + unit"

text \<open>What \<open>commit\<close> does to the outside, in order: a line written to the output
  channel, a process started with its arguments and working directory, a command of the
  host, the channel brought to the foreground, an error notification.\<close>

datatype effect =
    AppendLine string
  | Execa string "string list" string
  | ExecuteCommand string
  | ChannelShow
  | ShowErrorMessage string

definition hasOutput :: "execa_result option \<Rightarrow> bool" where
  "hasOutput result = (case result of None \<Rightarrow> False | Some r \<Rightarrow> stdout r \<noteq> [])"

definition shouldShowOutput :: "configuration \<Rightarrow> execa_result \<Rightarrow> bool" where
  "shouldShowOutput cfg result =
     (showOutputChannel cfg = Always \<or> showOutputChannel cfg = OnError \<and> code result > 0)"

definition hasStagedFiles :: "host \<Rightarrow> string \<Rightarrow> effect list \<times> (failure + bool)" where
  "hasStagedFiles h cwd =
     ([Execa ''git'' [''diff'', ''--name-only'', ''--cached''] cwd],
      (case git_diff h of Inl e \<Rightarrow> Inl e | Inr result \<Rightarrow> Inr (hasOutput (Some result))))"

definition conditionallyStageFiles :: "host \<Rightarrow> string \<Rightarrow> effect list \<times> (failure + unit)" where
  "conditionallyStageFiles h cwd =
     (let hasSmartCommitEnabled = (enableSmartCommit h = Some True) in
      if hasSmartCommitEnabled then
        (case hasStagedFiles h cwd of
           (tr, Inl e) \<Rightarrow> (tr, Inl e)
         | (tr, Inr staged) \<Rightarrow>
             if \<not> staged then
               (tr @ [AppendLine ''Staging all files (enableSmartCommit enabled with nothing staged)'',
                      ExecuteCommand ''git.stageAll''],
                git_stageAll h)
             else (tr, Inr ()))
      else ([], Inr ()))"

text \<open>The body of the \<^verbatim>\<open>try\<close> block of \<open>commit\<close>: the effects up to its end or up to
  the first rejected call.\<close>

definition commit_try :: "host \<Rightarrow> string \<Rightarrow> string \<Rightarrow> effect list \<times> (failure + unit)" where
  "commit_try h cwd msg =
     (case conditionallyStageFiles h cwd of
        (t1, Inl e) \<Rightarrow> (t1, Inl e)
      | (t1, Inr _) \<Rightarrow>
          (case git_commit h of
             Inl e \<Rightarrow> (t1 @ [Execa ''git'' [''commit'', ''-m'', msg] cwd], Inl e)
           | Inr result \<Rightarrow>
               (case git_refresh h of
                  Inl e \<Rightarrow>
                    (t1 @ [Execa ''git'' [''commit'', ''-m'', msg] cwd, ExecuteCommand ''git.refresh''], Inl e)
                | Inr _ \<Rightarrow>
                    (case (if autoSync (commitizen h) then ([ExecuteCommand ''git.sync''], git_sync h)
                           else ([], Inr ())) of
                       (t2, Inl e) \<Rightarrow>
                         (t1 @ [Execa ''git'' [''commit'', ''-m'', msg] cwd, ExecuteCommand ''git.refresh''] @ t2,
                          Inl e)
                     | (t2, Inr _) \<Rightarrow>
                         (t1 @ [Execa ''git'' [''commit'', ''-m'', msg] cwd, ExecuteCommand ''git.refresh''] @ t2 @
                          (if hasOutput (Some result) then
                             map AppendLine (split_on CHR ''\<newline>'' (stdout result)) @
                             (if shouldShowOutput (commitizen h) result then [ChannelShow] else [])
                           else []),
                          Inr ())))))"

definition commit :: "host \<Rightarrow> string \<Rightarrow> string \<Rightarrow> effect list" where
  "commit h cwd msg =
     AppendLine (''About to commit '' @ [CHR 0x27] @ msg @ [CHR 0x27]) #
     (case commit_try h cwd msg of
        (tr, Inl e) \<Rightarrow>
          tr @ [ShowErrorMessage (failure_message e), AppendLine (failure_message e),
                AppendLine (failure_stack e)]
      | (tr, Inr _) \<Rightarrow> tr)"

text \<open>
  Modelled from the spec: \<^verbatim>\<open>execa\<close> is a package that \<^verbatim>\<open>extension.ts\<close> imports; its code is
  not part of the source tree. The spec counts a non-zero exit among the failures raised
  into the \<^verbatim>\<open>try\<close> block of \<open>commit\<close> (section 4.4, step 5; section 7: the commit
  invocation fails or exits non-zero, and is caught at the boundary). So a call that
  resolves has the exit status 0, and a process that exits with another status is a
  rejected call.
\<close>

definition execa_contract :: "host \<Rightarrow> bool" where
  "execa_contract h =
     ((case git_diff h of Inl e \<Rightarrow> True | Inr result \<Rightarrow> code result = 0)
      \<and> (case git_commit h of Inl e \<Rightarrow> True | Inr result \<Rightarrow> code result = 0))"

section \<open>The command\<close>

text \<open>The host's answers to the prompts of one run of the command
  \<^verbatim>\<open>vscode-commitizen.commit\<close>.\<close>

record answers =
  typePick :: "pick option"
  scopePick :: "pick option"
  scopeInput :: "string option"
  subjectInput :: "string option"
  bodyInput :: "string option"
  breakingInput :: "string option"
  footerInput :: "string option"

text \<open>The six steps in order, on a new message object: the requests made of the host and
  the object at the end, or the exception that ended the run.\<close>

definition wizard :: "cz_config option \<Rightarrow> nat \<Rightarrow> answers \<Rightarrow> error + event list \<times> ccm" where
  "wizard cfg maxLength a =
     (case getType (new_ccm cfg) (typePick a) of
        (e1, s1) \<Rightarrow>
          (case getScope s1 (scopePick a) (scopeInput a) of
             Inl err \<Rightarrow> Inl err
           | Inr (e2, s2) \<Rightarrow>
               (case getSubject s2 maxLength (subjectInput a) of
                  (e3, s3) \<Rightarrow>
                    (case getBody s3 (bodyInput a) of
                       (e4, s4) \<Rightarrow>
                         (case getBreaking s4 (breakingInput a) of
                            (e5, s5) \<Rightarrow>
                              (case getFooter s5 (footerInput a) of
                                 (e6, s6) \<Rightarrow> Inr (e1 @ e2 @ e3 @ e4 @ e5 @ e6, s6)))))))"

text \<open>\<^verbatim>\<open>ccm.message.trim()\<close>, the argument of \<open>commit\<close>.\<close>

definition trimmed_message :: "ccm \<Rightarrow> error + string" where
  "trimmed_message s = (case message s of Inl e \<Rightarrow> Inl e | Inr m \<Rightarrow> Inr (trim m))"

text \<open>
  The command: the wizard, then the commit when the message is complete and a workspace
  folder is open. \<open>folders\<close> are the paths of \<^verbatim>\<open>vscode.workspace.workspaceFolders\<close>
  (\<open>None\<close>: no workspace); reading the path of the first of no folders raises.
\<close>

definition command ::
  "cz_config option \<Rightarrow> host \<Rightarrow> string list option \<Rightarrow> answers \<Rightarrow> error + event list \<times> effect list" where
  "command cfg h folders a =
     (case wizard cfg (subjectLength (commitizen h)) a of
        Inl err \<Rightarrow> Inl err
      | Inr (ev, s) \<Rightarrow>
          (case folders of
             None \<Rightarrow> Inr (ev, [])
           | Some fs \<Rightarrow>
               if complete s then
                 (case fs of
                    [] \<Rightarrow> Inl TypeError
                  | cwd # _ \<Rightarrow>
                      (case trimmed_message s of
                         Inl err \<Rightarrow> Inl err
                       | Inr m \<Rightarrow> Inr (ev, commit h cwd m)))
               else Inr (ev, [])))"

section \<open>Rendering: the end-to-end scenario and the emoji lookup\<close>

lemma length_DEFAULT_TYPES: "length DEFAULT_TYPES = 10"
  by (simp add: DEFAULT_TYPES_def)

text \<open>
  Claim C1, as the code has it. With a configuration that supplies the built-in type
  table and no footer prefix of its own, and the answers type \<open>feat\<close>, scope \<open>api\<close>,
  subject \<open>add health endpoint\<close>, footer \<open>#42\<close>, an empty body and no breaking change
  (unset or empty), the rendered and trimmed message is
  \<open>feat(api): :sparkles: add health endpoint\<close>, three empty lines, \<open>Closes #42\<close>:
  the emoji is the \<^verbatim>\<open>emojiCode\<close> of the entry for \<open>feat\<close>.
\<close>

theorem trimmed_message_feat_api:
  assumes "czConfig s = Some c" and "types c = Some DEFAULT_TYPES" and "footerPrefix c = None"
    and "type_answer s = Str ''feat''" and "scope s = Str ''api''"
    and "subject s = Str ''add health endpoint''" and "body s = Str []"
    and "\<not> truthy (breaking s)" and "footer s = Str ''#42''"
  shows "trimmed_message s =
           Inr ''feat(api): :sparkles: add health endpoint\<newline>\<newline>\<newline>\<newline>Closes #42''"
  using assms
  by (simp add: trimmed_message_def message_def messageFooter_def DEFAULT_TYPES_def trim_def
      isWhiteSpace_def)

theorem trimmed_message_feat_api_witness:
  "trimmed_message
     \<lparr>czConfig = Some \<lparr>types = Some DEFAULT_TYPES, scopes = None, messages = None,
                        allowCustomScopes = False, allowBreakingChanges = [],
                        footerPrefix = None, skipQuestions = None\<rparr>,
      next_step = True, type_answer = Str ''feat'', scope = Str ''api'',
      subject = Str ''add health endpoint'', body = Str [], breaking = Undefined,
      footer = Str ''#42''\<rparr>
   = Inr ''feat(api): :sparkles: add health endpoint\<newline>\<newline>\<newline>\<newline>Closes #42''"
  by (rule trimmed_message_feat_api
        [where c = "\<lparr>types = Some DEFAULT_TYPES, scopes = None, messages = None,
                     allowCustomScopes = False, allowBreakingChanges = [],
                     footerPrefix = None, skipQuestions = None\<rparr>"])
     simp_all

text \<open>
  Without a configuration the same answers render nothing: the getter raises. With the
  built-in table supplied and the body never assigned, the message holds the emoji code
  and the word \<open>undefined\<close> for the body; in neither case is it the message with the
  glyph and three empty lines.
\<close>

theorem trimmed_message_feat_api_counterexample:
  "trimmed_message
     ((new_ccm None)\<lparr>type_answer := Str ''feat'', scope := Str ''api'',
        subject := Str ''add health endpoint'', footer := Str ''#42''\<rparr>)
   = Inl TypeError
   \<and> trimmed_message
     ((new_ccm (Some \<lparr>types = Some DEFAULT_TYPES, scopes = None, messages = None,
                      allowCustomScopes = False, allowBreakingChanges = [],
                      footerPrefix = None, skipQuestions = None\<rparr>))
        \<lparr>type_answer := Str ''feat'', scope := Str ''api'',
         subject := Str ''add health endpoint'', footer := Str ''#42''\<rparr>)
   = Inr ''feat(api): :sparkles: add health endpoint\<newline>\<newline>undefined\<newline>\<newline>Closes #42''
   \<and> ''feat(api): :sparkles: add health endpoint\<newline>\<newline>undefined\<newline>\<newline>Closes #42''
     \<noteq> ''feat(api): '' @ [CHR 0xE2, CHR 0x9C, CHR 0xA8] @
         '' add health endpoint\<newline>\<newline>\<newline>\<newline>Closes #42''"
  by (simp add: trimmed_message_def message_def messageFooter_def DEFAULT_TYPES_def trim_def
      isWhiteSpace_def new_ccm_def)

text \<open>The same scenario as a run of the wizard: an empty answer to the body prompt and to
  the breaking prompt is stored as the empty string.\<close>

lemma wizard_feat_api:
  "map_sum id snd
     (wizard (Some \<lparr>types = Some DEFAULT_TYPES, scopes = None, messages = None,
                     allowCustomScopes = False, allowBreakingChanges = [],
                     footerPrefix = None, skipQuestions = None\<rparr>) 50
        \<lparr>typePick = Some \<lparr>label = Str ''feat'', description = []\<rparr>, scopePick = None,
         scopeInput = Some ''api'', subjectInput = Some ''add health endpoint'',
         bodyInput = Some [], breakingInput = Some [], footerInput = Some ''#42''\<rparr>)
   = Inr \<lparr>czConfig = Some \<lparr>types = Some DEFAULT_TYPES, scopes = None, messages = None,
                             allowCustomScopes = False, allowBreakingChanges = [],
                             footerPrefix = None, skipQuestions = None\<rparr>,
           next_step = True, type_answer = Str ''feat'', scope = Str ''api'',
           subject = Str ''add health endpoint'', body = Str [], breaking = Str [],
           footer = Str ''#42''\<rparr>"
  by (simp add: wizard_def getType_def getScope_def getSubject_def getBody_def
      getBreaking_def getFooter_def askOneOf_def ask_def new_ccm_def hasScopes_def
      shouldSkip_def Let_def wrap_def wrap_line_def chunks.simps)

text \<open>Without a configuration the command ends in the exception, whatever the host: the
  wizard completes, and the message cannot be rendered.\<close>

lemma command_without_configuration:
  "command None h (Some [''/repo''])
     \<lparr>typePick = Some \<lparr>label = Str ''feat'', description = []\<rparr>, scopePick = None,
      scopeInput = Some ''api'', subjectInput = Some ''add health endpoint'',
      bodyInput = Some [], breakingInput = Some [], footerInput = Some ''#42''\<rparr>
   = Inl TypeError"
  by (simp add: command_def wizard_def getType_def getScope_def getSubject_def getBody_def
      getBreaking_def getFooter_def askOneOf_def ask_def new_ccm_def hasScopes_def
      shouldSkip_def complete_def trimmed_message_def message_def Let_def)

text \<open>With a type list the message is rendered, and the emoji is the code of the first
  entry for the type, or the empty string when there is none.\<close>

lemma message_emoji_lookup:
  assumes "czConfig s = Some c" and "types c = Some ts"
  shows "\<exists>emoji. message s =
           Inr (to_string (type_answer s) @ scope_segment (scope s) @ '': '' @ emoji @ '' '' @
                to_string (subject s) @ ''\<newline>\<newline>'' @ to_string (body s) @ ''\<newline>\<newline>'' @
                (if truthy (breaking s) then ''BREAKING CHANGE: '' @ to_string (breaking s) @ ''\<newline>''
                 else []) @ messageFooter s)
         \<and> ((\<forall>e \<in> set ts. Str (type_value e) \<noteq> type_answer s) \<longrightarrow> emoji = [])
         \<and> (\<forall>e. find (\<lambda>e. Str (type_value e) = type_answer s) ts = Some e \<longrightarrow>
                emoji = type_emojiCode e)"
proof -
  have eq: "strict_equals (Str a) v = (Str a = v)" for a v
    by (cases v) auto
  have none: "(\<forall>e \<in> set ts. Str (type_value e) \<noteq> type_answer s) \<Longrightarrow>
      filter (\<lambda>e. Str (type_value e) = type_answer s) ts = []"
    by (simp add: filter_empty_conv)
  have some: "find P ts = Some e \<Longrightarrow> \<exists>rest. filter P ts = e # rest" for P and e :: cz_type
    by (induction ts) (auto split: if_splits)
  show ?thesis
    using assms none some [of "\<lambda>e. Str (type_value e) = type_answer s"]
    by (auto simp: message_def Let_def eq split: list.splits)
qed

text \<open>
  Claim C2 says that rendering looks the emoji code up and never fails, also when no
  configuration was supplied. With a type list the lookup is as claimed (no entry: the
  empty string). Without a configuration the getter raises a TypeError: the type list it
  filters is \<^verbatim>\<open>undefined\<close>, although \<open>getType\<close> falls back to the built-in table in the same
  situation.
\<close>

theorem message_without_configuration:
  "message ((new_ccm None)\<lparr>type_answer := Str ''feat'', subject := Str ''add health endpoint''\<rparr>)
   = Inl TypeError"
  by (simp add: message_def new_ccm_def)

section \<open>Type selection\<close>

text \<open>
  Claim C3, as the code has it. When the configuration is absent or has no type list, the
  type-selection step presents the ten built-in types. When the configuration has a type
  list, the step presents that list, one option per entry in order, so the options are
  empty exactly when the configured list is.
\<close>

theorem getType_presents:
  assumes "next_step s"
  shows "((czConfig s = None \<or> (\<exists>c. czConfig s = Some c \<and> types c = None)) \<longrightarrow>
            fst (getType s picked) = [ShowQuickPick (inputMessage s ''type'') (map type_pick DEFAULT_TYPES)]
            \<and> length (map type_pick DEFAULT_TYPES) = 10)
       \<and> (\<forall>c ts. czConfig s = Some c \<and> types c = Some ts \<longrightarrow>
            fst (getType s picked) = [ShowQuickPick (inputMessage s ''type'') (map type_pick ts)]
            \<and> (map type_pick ts = [] \<longleftrightarrow> ts = []))"
  using assms
  by (auto simp: getType_def askOneOf_def Let_def length_DEFAULT_TYPES split: option.splits)

theorem getType_presents_witness:
  "next_step (new_ccm None) \<and> czConfig (new_ccm None) = None
   \<and> fst (getType (new_ccm None) None)
       = [ShowQuickPick (inputMessage (new_ccm None) ''type'') (map type_pick DEFAULT_TYPES)]
   \<and> length (map type_pick DEFAULT_TYPES) = 10"
  using getType_presents [of "new_ccm None" None]
  by (simp add: new_ccm_def)

text \<open>A configuration whose type list is empty: the quick pick is shown with no option.\<close>

theorem getType_empty_types_counterexample:
  "fst (getType (new_ccm (Some \<lparr>types = Some [], scopes = None, messages = None,
                               allowCustomScopes = False, allowBreakingChanges = [],
                               footerPrefix = None, skipQuestions = None\<rparr>)) None)
   = [ShowQuickPick (Str (''Select the type of change that you'' @ [CHR 0x27] @ ''re committing'')) []]"
  by (simp add: getType_def askOneOf_def new_ccm_def inputMessage_def hasCustomMessage_def
      property_def DEFAULT_MESSAGES_def)

section \<open>The footer\<close>

text \<open>
  Claim C4, as the code has it. For every non-empty footer, the footer part of the message
  is the prefix immediately followed by the footer, and a message that is rendered ends
  with that part, with nothing after it. The prefix is the configuration's
  \<^verbatim>\<open>footerPrefix\<close> when that is a non-empty string, and \<open>Closes \<close> otherwise: without a
  configuration, without a \<^verbatim>\<open>footerPrefix\<close>, and when \<^verbatim>\<open>footerPrefix\<close> is the empty
  string.
\<close>

theorem message_ends_with_footer:
  assumes "footer s = Str f" and "f \<noteq> []"
  shows "(\<forall>c p. czConfig s = Some c \<and> footerPrefix c = Some p \<and> p \<noteq> [] \<longrightarrow> messageFooter s = p @ f)
       \<and> ((czConfig s = None
            \<or> (\<exists>c. czConfig s = Some c \<and> (footerPrefix c = None \<or> footerPrefix c = Some [])))
           \<longrightarrow> messageFooter s = ''Closes '' @ f)
       \<and> (\<forall>m. message s = Inr m \<longrightarrow> suffix (messageFooter s) m)"
  using assms
  by (auto simp: message_def messageFooter_def suffix_def Let_def split: option.splits)

text \<open>A configured prefix \<open>Fixes \<close>; no configuration (the footer part is made, the message
  is not); a configuration without a prefix.\<close>

theorem message_ends_with_footer_witness:
  "messageFooter
     \<lparr>czConfig = Some \<lparr>types = Some DEFAULT_TYPES, scopes = None, messages = None,
                        allowCustomScopes = False, allowBreakingChanges = [],
                        footerPrefix = Some ''Fixes '', skipQuestions = None\<rparr>,
      next_step = True, type_answer = Str ''fix'', scope = Undefined,
      subject = Str ''off by one'', body = Str [], breaking = Undefined,
      footer = Str ''#42''\<rparr>
   = ''Fixes #42''
   \<and> message
     \<lparr>czConfig = Some \<lparr>types = Some DEFAULT_TYPES, scopes = None, messages = None,
                        allowCustomScopes = False, allowBreakingChanges = [],
                        footerPrefix = Some ''Fixes '', skipQuestions = None\<rparr>,
      next_step = True, type_answer = Str ''fix'', scope = Undefined,
      subject = Str ''off by one'', body = Str [], breaking = Undefined,
      footer = Str ''#42''\<rparr>
   = Inr ''fix: :bug: off by one\<newline>\<newline>\<newline>\<newline>Fixes #42''
   \<and> suffix ''Fixes #42'' ''fix: :bug: off by one\<newline>\<newline>\<newline>\<newline>Fixes #42''
   \<and> messageFooter
     \<lparr>czConfig = None, next_step = True, type_answer = Str ''fix'', scope = Undefined,
      subject = Str ''off by one'', body = Str [], breaking = Undefined,
      footer = Str ''#42''\<rparr>
   = ''Closes #42''
   \<and> messageFooter
     \<lparr>czConfig = Some \<lparr>types = Some DEFAULT_TYPES, scopes = None, messages = None,
                        allowCustomScopes = False, allowBreakingChanges = [],
                        footerPrefix = None, skipQuestions = None\<rparr>,
      next_step = True, type_answer = Str ''fix'', scope = Undefined,
      subject = Str ''off by one'', body = Str [], breaking = Undefined,
      footer = Str ''#42''\<rparr>
   = ''Closes #42''
   \<and> suffix ''Closes #42'' ''fix: :bug: off by one\<newline>\<newline>\<newline>\<newline>Closes #42''"
proof -
  let ?fixes = "\<lparr>types = Some DEFAULT_TYPES, scopes = None, messages = None,
                 allowCustomScopes = False, allowBreakingChanges = [],
                 footerPrefix = Some ''Fixes '', skipQuestions = None\<rparr>"
  let ?plain = "\<lparr>types = Some DEFAULT_TYPES, scopes = None, messages = None,
                 allowCustomScopes = False, allowBreakingChanges = [],
                 footerPrefix = None, skipQuestions = None\<rparr>"
  let ?s = "\<lambda>cfg. \<lparr>czConfig = cfg, next_step = True, type_answer = Str ''fix'', scope = Undefined,
                  subject = Str ''off by one'', body = Str [], breaking = Undefined,
                  footer = Str ''#42''\<rparr>"
  have f: "footer (?s cfg) = Str ''#42''" and n: "''#42'' \<noteq> []" for cfg
    by simp_all
  have m1: "message (?s (Some ?fixes)) = Inr ''fix: :bug: off by one\<newline>\<newline>\<newline>\<newline>Fixes #42''"
    by (simp add: message_def messageFooter_def DEFAULT_TYPES_def)
  have m3: "message (?s (Some ?plain)) = Inr ''fix: :bug: off by one\<newline>\<newline>\<newline>\<newline>Closes #42''"
    by (simp add: message_def messageFooter_def DEFAULT_TYPES_def)
  have p1: "messageFooter (?s (Some ?fixes)) = ''Fixes #42''"
    using message_ends_with_footer [OF f n, of "Some ?fixes"] by simp
  have s1: "suffix ''Fixes #42'' ''fix: :bug: off by one\<newline>\<newline>\<newline>\<newline>Fixes #42''"
    using message_ends_with_footer [OF f n, of "Some ?fixes"] m1 p1 by simp
  have p2: "messageFooter (?s None) = ''Closes #42''"
    using message_ends_with_footer [OF f n, of None] by simp
  have p3: "messageFooter (?s (Some ?plain)) = ''Closes #42''"
    using message_ends_with_footer [OF f n, of "Some ?plain"] by simp
  have s3: "suffix ''Closes #42'' ''fix: :bug: off by one\<newline>\<newline>\<newline>\<newline>Closes #42''"
    using message_ends_with_footer [OF f n, of "Some ?plain"] m3 p3 by simp
  from p1 m1 s1 p2 p3 s3 show ?thesis by simp
qed

text \<open>A configuration whose \<^verbatim>\<open>footerPrefix\<close> is the empty string: the footer is appended
  after \<open>Closes \<close>, not after the configured (empty) prefix.\<close>

theorem empty_footerPrefix_counterexample:
  "messageFooter
     \<lparr>czConfig = Some \<lparr>types = Some DEFAULT_TYPES, scopes = None, messages = None,
                        allowCustomScopes = False, allowBreakingChanges = [],
                        footerPrefix = Some [], skipQuestions = None\<rparr>,
      next_step = True, type_answer = Str ''fix'', scope = Undefined,
      subject = Str ''off by one'', body = Str [], breaking = Undefined,
      footer = Str ''#42''\<rparr>
   = ''Closes #42''
   \<and> message
     \<lparr>czConfig = Some \<lparr>types = Some DEFAULT_TYPES, scopes = None, messages = None,
                        allowCustomScopes = False, allowBreakingChanges = [],
                        footerPrefix = Some [], skipQuestions = None\<rparr>,
      next_step = True, type_answer = Str ''fix'', scope = Undefined,
      subject = Str ''off by one'', body = Str [], breaking = Undefined,
      footer = Str ''#42''\<rparr>
   = Inr ''fix: :bug: off by one\<newline>\<newline>\<newline>\<newline>Closes #42''
   \<and> ''Closes #42'' \<noteq> [] @ ''#42''"
  by (simp add: message_def messageFooter_def DEFAULT_TYPES_def)

section \<open>Cancellation\<close>

text \<open>A prompt that is dismissed ends the wizard: the step that made it leaves
  \<open>next_step\<close> false.\<close>

lemma getType_dismissed: "\<not> next_step (snd (getType s None))"
  by (simp add: getType_def askOneOf_def Let_def)

lemma getScope_dismissed:
  assumes "getScope s None input = Inr (ev, s')" and "ev \<noteq> []"
    and "hasScopes (czConfig s) \<or> input = None"
  shows "\<not> next_step s'"
  using assms
  by (auto simp: getScope_def askOneOf_def ask_def
      split: if_splits option.splits list.splits sum.splits)

lemma getSubject_dismissed: "\<not> next_step (snd (getSubject s maxLength None))"
  by (simp add: getSubject_def ask_def)

lemma getBody_dismissed: "fst (getBody s None) \<noteq> [] \<Longrightarrow> \<not> next_step (snd (getBody s None))"
  by (simp add: getBody_def ask_def split: if_splits)

lemma getBreaking_dismissed:
  "fst (getBreaking s None) \<noteq> [] \<Longrightarrow> \<not> next_step (snd (getBreaking s None))"
  by (simp add: getBreaking_def ask_def split: if_splits)

lemma getFooter_dismissed:
  "fst (getFooter s None) \<noteq> [] \<Longrightarrow> \<not> next_step (snd (getFooter s None))"
  by (simp add: getFooter_def ask_def split: if_splits)

text \<open>
  Claim C7. Once a prompt has been cancelled (\<open>next_step\<close> is false), each of the six step
  functions makes no request of the host and returns the message object as it was: the
  six answers and the cancelled state are unchanged, whatever the host would have
  answered.
\<close>

theorem steps_after_cancellation:
  assumes "\<not> next_step s"
  shows "getType s picked = ([], s)
       \<and> getScope s picked input = Inr ([], s)
       \<and> getSubject s maxLength input = ([], s)
       \<and> getBody s input = ([], s)
       \<and> getBreaking s input = ([], s)
       \<and> getFooter s input = ([], s)"
  using assms
  by (simp add: getType_def getScope_def getSubject_def getBody_def getBreaking_def getFooter_def)

text \<open>The state after the type prompt was dismissed, and the other steps answered as if
  nothing had happened.\<close>

theorem steps_after_cancellation_witness:
  "\<not> next_step (snd (getType (new_ccm None) None))
   \<and> getType (snd (getType (new_ccm None) None)) (Some \<lparr>label = Str ''feat'', description = []\<rparr>)
       = ([], snd (getType (new_ccm None) None))
   \<and> getScope (snd (getType (new_ccm None) None))
        (Some \<lparr>label = Str ''feat'', description = []\<rparr>) (Some ''api'')
       = Inr ([], snd (getType (new_ccm None) None))
   \<and> getSubject (snd (getType (new_ccm None) None)) 50 (Some ''api'')
       = ([], snd (getType (new_ccm None) None))
   \<and> getBody (snd (getType (new_ccm None) None)) (Some ''api'')
       = ([], snd (getType (new_ccm None) None))
   \<and> getBreaking (snd (getType (new_ccm None) None)) (Some ''api'')
       = ([], snd (getType (new_ccm None) None))
   \<and> getFooter (snd (getType (new_ccm None) None)) (Some ''api'')
       = ([], snd (getType (new_ccm None) None))"
proof -
  have c: "\<not> next_step (snd (getType (new_ccm None) None))"
    by (simp add: getType_def askOneOf_def Let_def)
  from steps_after_cancellation [OF c, of "Some \<lparr>label = Str ''feat'', description = []\<rparr>"
      "Some ''api''" 50] c
  show ?thesis by blast
qed

section \<open>Scope selection\<close>

text \<open>
  Claim C6 says that a configuration with scopes gets a single-choice list of its scope
  names, with a trailing custom entry exactly when \<^verbatim>\<open>allowCustomScopes\<close> is set. With
  \<^verbatim>\<open>allowCustomScopes\<close> set the step raises before it shows anything: \<open>getScopePicks\<close>
  calls the method \<^verbatim>\<open>inputMessage\<close>, handed over without its object, to get the label of
  the custom entry.
\<close>

theorem getScope_allowCustomScopes:
  "getScope (new_ccm (Some \<lparr>types = Some DEFAULT_TYPES, scopes = Some [ScopeObject (Some ''api'')],
                            messages = None, allowCustomScopes = True, allowBreakingChanges = [],
                            footerPrefix = None, skipQuestions = None\<rparr>)) picked input
   = Inl TypeError"
  by (simp add: getScope_def getScopePicks_def inputMessage_call_def hasScopes_def new_ccm_def)

lemma error_TypeError: "(e :: error) = TypeError"
  by (cases e) simp

text \<open>Every configuration with scopes and \<^verbatim>\<open>allowCustomScopes\<close> ends the step so.\<close>

lemma getScope_raises_with_custom_entry:
  assumes "next_step s" and "czConfig s = Some c" and "scopes c = Some (first # rest)"
    and "first \<noteq> ScopeUndefined" and "allowCustomScopes c"
  shows "getScope s picked input = Inl TypeError"
  using assms
  by (simp add: getScope_def getScopePicks_def inputMessage_call_def hasScopes_def error_TypeError
      split: sum.splits)

text \<open>Without \<^verbatim>\<open>allowCustomScopes\<close> the list is the scopes' labels, one option per scope
  in order, and nothing else.\<close>

lemma getScope_list:
  assumes "next_step s" and "czConfig s = Some c" and "scopes c = Some (first # rest)"
    and "first \<noteq> ScopeUndefined" and "\<not> allowCustomScopes c"
    and "getScope s picked input = Inr (ev, s')"
  shows "\<exists>scopePicks. hd ev = ShowQuickPick (inputMessage s ''customScope'') scopePicks
           \<and> map_result scope_label (first # rest) = Inr (map label scopePicks)
           \<and> length scopePicks = length (first # rest)"
proof -
  have len: "map_result f xs = Inr ys \<Longrightarrow> length ys = length xs" for f :: "scope_entry \<Rightarrow> error + pick" and xs ys
    by (induction xs arbitrary: ys) (auto split: sum.splits)
  have lab: "map_result (\<lambda>sc. case scope_label sc of Inl e \<Rightarrow> Inl e
                                 | Inr l \<Rightarrow> Inr \<lparr>label = l, description = []\<rparr>) xs = Inr ys
             \<Longrightarrow> map_result scope_label xs = Inr (map label ys)" for xs ys
    by (induction xs arbitrary: ys) (auto split: sum.splits)
  from assms obtain scopePicks where
    p: "getScopePicks c (inputMessage_call None) = Inr scopePicks"
    and e: "hd ev = ShowQuickPick (inputMessage s ''customScope'') scopePicks"
    by (auto simp: getScope_def hasScopes_def askOneOf_def ask_def
        split: sum.splits option.splits if_splits prod.splits)
  from p assms(3,5) have
    m: "map_result (\<lambda>sc. case scope_label sc of Inl e \<Rightarrow> Inl e
                          | Inr l \<Rightarrow> Inr \<lparr>label = l, description = []\<rparr>) (first # rest) = Inr scopePicks"
    by (simp add: getScopePicks_def split: sum.splits)
  from lab [OF m] len [OF m] e show ?thesis by blast
qed

text \<open>
  Claim C10, as the code has it. In the single-choice branch of the scope step, choosing
  an option whose label is the empty string leaves the scope unset (\<^verbatim>\<open>undefined\<close>, not the
  empty string), and the header then has no scope part: the type is followed directly by
  the colon. The exception is a configuration whose custom-entry label is itself the
  empty string: there the choice is taken for the custom entry, the free-text prompt
  opens, and the typed text becomes the scope when it is not empty. In every case the
  scope is not stored as the empty string, and the scope part of the header is never an
  empty pair of parentheses.
\<close>

theorem getScope_empty_label:
  assumes "next_step s" and "czConfig s = Some c" and "scopes c = Some (first # rest)"
    and "first \<noteq> ScopeUndefined"
    and "getScope s (Some p) input = Inr (ev, s')"
    and "label p = Str []"
  shows "(\<not> (inputMessage s ''customScopeEntry'' = Str [] \<and> truthy (inputMessage s ''customScope'')) \<longrightarrow>
            scope s' = Undefined
          \<and> scope_segment (scope s') = []
          \<and> (\<forall>m. message s' = Inr m \<longrightarrow> prefix (to_string (type_answer s') @ '': '') m))
       \<and> (inputMessage s ''customScopeEntry'' = Str [] \<and> truthy (inputMessage s ''customScope'') \<longrightarrow>
            scope s' = (case input of
                          None \<Rightarrow> scope s
                        | Some i \<Rightarrow> if i \<noteq> [] then Str i else Undefined))
       \<and> (scope s \<noteq> Str [] \<longrightarrow> scope s' \<noteq> Str [])
       \<and> (\<forall>v. scope_segment v \<noteq> ''()'')"
proof -
  let ?custom = "inputMessage s ''customScopeEntry'' = Str [] \<and> truthy (inputMessage s ''customScope'')"
  have seg: "scope_segment v \<noteq> ''()''" for v
    by (cases v) auto
  have eq: "strict_equals (Str []) v = (v = Str [])" for v
    by (cases v) auto
  have plain: "scope s' = Undefined" if "\<not> ?custom"
    using that assms
    by (auto simp: getScope_def hasScopes_def askOneOf_def eq split: sum.splits)
  have header: "prefix (to_string (type_answer s') @ '': '') m"
    if "\<not> ?custom" and "message s' = Inr m" for m
    using plain [OF that(1)] that(2)
    by (auto simp: message_def Let_def prefix_def split: option.splits)
  have custom: "scope s' = (case input of None \<Rightarrow> scope s
                            | Some i \<Rightarrow> if i \<noteq> [] then Str i else Undefined)" if "?custom"
    using that assms
    by (auto simp: getScope_def hasScopes_def askOneOf_def ask_def eq
        split: sum.splits option.splits)
  have never: "scope s' \<noteq> Str []" if "scope s \<noteq> Str []"
  proof (cases "?custom")
    case True
    from custom [OF True] that show ?thesis
      by (auto split: option.splits if_splits)
  next
    case False
    from plain [OF False] show ?thesis by simp
  qed
  from plain header custom never seg show ?thesis
    by (simp del: not_None_eq)
qed

text \<open>The scopes \<open>api\<close> and the empty string, the built-in messages, and the empty label
  chosen: no scope is stored.\<close>

theorem getScope_empty_label_witness:
  "getScope (new_ccm (Some \<lparr>types = Some DEFAULT_TYPES,
                            scopes = Some [ScopeString ''api'', ScopeString []],
                            messages = None, allowCustomScopes = False, allowBreakingChanges = [],
                            footerPrefix = None, skipQuestions = None\<rparr>))
     (Some \<lparr>label = Str [], description = []\<rparr>) None
   = Inr ([ShowQuickPick (Str ''Denote the SCOPE of this change'')
             [\<lparr>label = Str ''api'', description = []\<rparr>, \<lparr>label = Str [], description = []\<rparr>]],
          new_ccm (Some \<lparr>types = Some DEFAULT_TYPES,
                          scopes = Some [ScopeString ''api'', ScopeString []],
                          messages = None, allowCustomScopes = False, allowBreakingChanges = [],
                          footerPrefix = None, skipQuestions = None\<rparr>))
   \<and> scope (new_ccm (Some \<lparr>types = Some DEFAULT_TYPES,
                          scopes = Some [ScopeString ''api'', ScopeString []],
                          messages = None, allowCustomScopes = False, allowBreakingChanges = [],
                          footerPrefix = None, skipQuestions = None\<rparr>)) = Undefined
   \<and> scope_segment (scope (new_ccm (Some \<lparr>types = Some DEFAULT_TYPES,
                          scopes = Some [ScopeString ''api'', ScopeString []],
                          messages = None, allowCustomScopes = False, allowBreakingChanges = [],
                          footerPrefix = None, skipQuestions = None\<rparr>))) = []"
proof -
  let ?c = "\<lparr>types = Some DEFAULT_TYPES, scopes = Some [ScopeString ''api'', ScopeString []],
             messages = None, allowCustomScopes = False, allowBreakingChanges = [],
             footerPrefix = None, skipQuestions = None\<rparr>"
  let ?p = "\<lparr>label = Str [], description = []\<rparr>"
  let ?ev = "[ShowQuickPick (Str ''Denote the SCOPE of this change'')
               [\<lparr>label = Str ''api'', description = []\<rparr>, \<lparr>label = Str [], description = []\<rparr>]]"
  have run: "getScope (new_ccm (Some ?c)) (Some ?p) None = Inr (?ev, new_ccm (Some ?c))"
    by (simp add: getScope_def getScopePicks_def hasScopes_def new_ccm_def askOneOf_def
        inputMessage_def hasCustomMessage_def property_def DEFAULT_MESSAGES_def)
  have msg: "\<not> (inputMessage (new_ccm (Some ?c)) ''customScopeEntry'' = Str []
               \<and> truthy (inputMessage (new_ccm (Some ?c)) ''customScope''))"
    by (simp add: new_ccm_def inputMessage_def hasCustomMessage_def property_def
        DEFAULT_MESSAGES_def)
  have "next_step (new_ccm (Some ?c))" and "czConfig (new_ccm (Some ?c)) = Some ?c"
    and "scopes ?c = Some [ScopeString ''api'', ScopeString []]"
    and "ScopeString ''api'' \<noteq> ScopeUndefined" and "label ?p = Str []"
    by (simp_all add: new_ccm_def)
  from getScope_empty_label [OF this(1-4) run this(5)] msg run
  show ?thesis by simp
qed

text \<open>The same scopes with the custom-entry label configured as the empty string: the
  empty label is taken for the custom entry, the input box opens, and the text typed
  there is stored as the scope.\<close>

theorem getScope_empty_label_counterexample:
  "getScope (new_ccm (Some \<lparr>types = Some DEFAULT_TYPES,
                            scopes = Some [ScopeString ''api'', ScopeString []],
                            messages = Some [(''customScopeEntry'', [])],
                            allowCustomScopes = False, allowBreakingChanges = [],
                            footerPrefix = None, skipQuestions = None\<rparr>))
     (Some \<lparr>label = Str [], description = []\<rparr>) (Some ''zzz'')
   = Inr ([ShowQuickPick (Str ''Denote the SCOPE of this change'')
             [\<lparr>label = Str ''api'', description = []\<rparr>, \<lparr>label = Str [], description = []\<rparr>],
           ShowInputBox (Str ''Denote the SCOPE of this change'')],
          (new_ccm (Some \<lparr>types = Some DEFAULT_TYPES,
                           scopes = Some [ScopeString ''api'', ScopeString []],
                           messages = Some [(''customScopeEntry'', [])],
                           allowCustomScopes = False, allowBreakingChanges = [],
                           footerPrefix = None, skipQuestions = None\<rparr>))\<lparr>scope := Str ''zzz''\<rparr>)"
  by (simp add: getScope_def getScopePicks_def hasScopes_def new_ccm_def askOneOf_def ask_def
      inputMessage_def hasCustomMessage_def property_def DEFAULT_MESSAGES_def)

section \<open>The commit\<close>

lemma count_list_AppendLine: "count_list (map AppendLine ls) (ExecuteCommand c) = 0"
  by (induction ls) simp_all

lemma Execa_notin_AppendLine: "Execa p args cwd \<notin> set (map AppendLine ls)"
  by auto

text \<open>The staged-diff query reports no staged files when the process has resolved and its
  standard output is empty.\<close>

lemma hasStagedFiles_none:
  "snd (hasStagedFiles h cwd) = Inr False \<longleftrightarrow> (\<exists>r. git_diff h = Inr r \<and> stdout r = [])"
  by (auto simp: hasStagedFiles_def hasOutput_def split: sum.splits)

text \<open>The effects of the staging step: the staged-diff query when smart commit is on, and
  the stage-all command after it when the query resolved with no output.\<close>

lemma conditionallyStageFiles_effects:
  "fst (conditionallyStageFiles h cwd) =
     (if enableSmartCommit h = Some True then
        Execa ''git'' [''diff'', ''--name-only'', ''--cached''] cwd #
        (if \<exists>r. git_diff h = Inr r \<and> stdout r = [] then
           [AppendLine ''Staging all files (enableSmartCommit enabled with nothing staged)'',
            ExecuteCommand ''git.stageAll'']
         else [])
      else [])"
  by (auto simp: conditionallyStageFiles_def hasStagedFiles_def hasOutput_def split: sum.splits)

lemma conditionallyStageFiles_result:
  "snd (conditionallyStageFiles h cwd) =
     (if enableSmartCommit h = Some True then
        (case git_diff h of
           Inl e \<Rightarrow> Inl e
         | Inr r \<Rightarrow> if stdout r \<noteq> [] then Inr () else git_stageAll h)
      else Inr ())"
  by (auto simp: conditionallyStageFiles_def hasStagedFiles_def hasOutput_def split: sum.splits)

text \<open>The effects of \<open>commit\<close> after the staging step: none of them is the stage-all
  command, and the commit process is among them when staging was not rejected.\<close>

lemma commit_effects:
  "\<exists>rest. commit h cwd msg =
            AppendLine (''About to commit '' @ [CHR 0x27] @ msg @ [CHR 0x27]) #
            fst (conditionallyStageFiles h cwd) @ rest
          \<and> count_list rest (ExecuteCommand ''git.stageAll'') = 0
          \<and> (snd (conditionallyStageFiles h cwd) = Inr () \<longrightarrow>
               Execa ''git'' [''commit'', ''-m'', msg] cwd \<in> set rest)"
  by (cases "conditionallyStageFiles h cwd")
     (auto simp: commit_def commit_try_def count_list_AppendLine
       split: sum.splits prod.splits if_splits)

text \<open>
  Claim C9. The stage-all command is invoked exactly once if the smart-commit setting is
  on and the staged-diff query reports no staged files (the process \<^verbatim>\<open>git diff --name-only
  --cached\<close> has resolved with an empty standard output), and not at all otherwise: not
  when smart commit is on and the query lists a staged file, and not when smart commit is
  off, whatever is staged. When it is invoked, the commit process has not been started
  before it, and is started after it once stage-all has resolved.
\<close>

theorem stageAll_invoked:
  "count_list (commit h cwd msg) (ExecuteCommand ''git.stageAll'')
     = (if enableSmartCommit h = Some True \<and> (\<exists>r. git_diff h = Inr r \<and> stdout r = []) then 1 else 0)
   \<and> (enableSmartCommit h = Some True \<and> (\<exists>r. git_diff h = Inr r \<and> stdout r = []) \<longrightarrow>
        (\<exists>before after.
            commit h cwd msg = before @ ExecuteCommand ''git.stageAll'' # after
          \<and> Execa ''git'' [''commit'', ''-m'', msg] cwd \<notin> set before
          \<and> (git_stageAll h = Inr () \<longrightarrow> Execa ''git'' [''commit'', ''-m'', msg] cwd \<in> set after)))"
proof -
  obtain rest where
    c: "commit h cwd msg =
          AppendLine (''About to commit '' @ [CHR 0x27] @ msg @ [CHR 0x27]) #
          fst (conditionallyStageFiles h cwd) @ rest"
    and r: "count_list rest (ExecuteCommand ''git.stageAll'') = 0"
    and e: "snd (conditionallyStageFiles h cwd) = Inr () \<longrightarrow>
              Execa ''git'' [''commit'', ''-m'', msg] cwd \<in> set rest"
    using commit_effects by blast
  have count: "count_list (commit h cwd msg) (ExecuteCommand ''git.stageAll'')
     = (if enableSmartCommit h = Some True \<and> (\<exists>r. git_diff h = Inr r \<and> stdout r = []) then 1 else 0)"
    using r by (simp add: c conditionallyStageFiles_effects)
  have order: "\<exists>before after.
            commit h cwd msg = before @ ExecuteCommand ''git.stageAll'' # after
          \<and> Execa ''git'' [''commit'', ''-m'', msg] cwd \<notin> set before
          \<and> (git_stageAll h = Inr () \<longrightarrow> Execa ''git'' [''commit'', ''-m'', msg] cwd \<in> set after)"
    if on: "enableSmartCommit h = Some True" and none: "\<exists>r. git_diff h = Inr r \<and> stdout r = []"
  proof (intro exI conjI)
    show "commit h cwd msg =
            [AppendLine (''About to commit '' @ [CHR 0x27] @ msg @ [CHR 0x27]),
             Execa ''git'' [''diff'', ''--name-only'', ''--cached''] cwd,
             AppendLine ''Staging all files (enableSmartCommit enabled with nothing staged)'']
            @ ExecuteCommand ''git.stageAll'' # rest"
      using on none by (simp add: c conditionallyStageFiles_effects)
    show "Execa ''git'' [''commit'', ''-m'', msg] cwd \<notin>
            set [AppendLine (''About to commit '' @ [CHR 0x27] @ msg @ [CHR 0x27]),
                 Execa ''git'' [''diff'', ''--name-only'', ''--cached''] cwd,
                 AppendLine ''Staging all files (enableSmartCommit enabled with nothing staged)'']"
      by simp
    show "git_stageAll h = Inr () \<longrightarrow> Execa ''git'' [''commit'', ''-m'', msg] cwd \<in> set rest"
      using e on none by (auto simp: conditionallyStageFiles_result)
  qed
  from count order show ?thesis by blast
qed

text \<open>Smart commit on and nothing staged: the effects of a commit that succeeds, in
  order. Smart commit on and \<open>a.txt\<close> staged, and smart commit off with nothing staged:
  stage-all is not among the effects.\<close>

theorem stageAll_invoked_witness:
  "commit
     \<lparr>commitizen = \<lparr>autoSync = False, subjectLength = 50, showOutputChannel = Off\<rparr>,
      enableSmartCommit = Some True, git_diff = Inr \<lparr>code = 0, stdout = []\<rparr>,
      git_stageAll = Inr (), git_commit = Inr \<lparr>code = 0, stdout = ''done''\<rparr>,
      git_refresh = Inr (), git_sync = Inr ()\<rparr> ''/repo'' ''fix: x''
   = [AppendLine (''About to commit '' @ [CHR 0x27] @ ''fix: x'' @ [CHR 0x27]),
      Execa ''git'' [''diff'', ''--name-only'', ''--cached''] ''/repo'',
      AppendLine ''Staging all files (enableSmartCommit enabled with nothing staged)'',
      ExecuteCommand ''git.stageAll'',
      Execa ''git'' [''commit'', ''-m'', ''fix: x''] ''/repo'',
      ExecuteCommand ''git.refresh'',
      AppendLine ''done'']
   \<and> count_list
       (commit
         \<lparr>commitizen = \<lparr>autoSync = False, subjectLength = 50, showOutputChannel = Off\<rparr>,
          enableSmartCommit = Some True, git_diff = Inr \<lparr>code = 0, stdout = []\<rparr>,
          git_stageAll = Inr (), git_commit = Inr \<lparr>code = 0, stdout = ''done''\<rparr>,
          git_refresh = Inr (), git_sync = Inr ()\<rparr> ''/repo'' ''fix: x'')
       (ExecuteCommand ''git.stageAll'') = 1
   \<and> commit
     \<lparr>commitizen = \<lparr>autoSync = False, subjectLength = 50, showOutputChannel = Off\<rparr>,
      enableSmartCommit = Some True, git_diff = Inr \<lparr>code = 0, stdout = ''a.txt''\<rparr>,
      git_stageAll = Inr (), git_commit = Inr \<lparr>code = 0, stdout = ''done''\<rparr>,
      git_refresh = Inr (), git_sync = Inr ()\<rparr> ''/repo'' ''fix: x''
   = [AppendLine (''About to commit '' @ [CHR 0x27] @ ''fix: x'' @ [CHR 0x27]),
      Execa ''git'' [''diff'', ''--name-only'', ''--cached''] ''/repo'',
      Execa ''git'' [''commit'', ''-m'', ''fix: x''] ''/repo'',
      ExecuteCommand ''git.refresh'',
      AppendLine ''done'']
   \<and> count_list
       (commit
         \<lparr>commitizen = \<lparr>autoSync = False, subjectLength = 50, showOutputChannel = Off\<rparr>,
          enableSmartCommit = Some True, git_diff = Inr \<lparr>code = 0, stdout = ''a.txt''\<rparr>,
          git_stageAll = Inr (), git_commit = Inr \<lparr>code = 0, stdout = ''done''\<rparr>,
          git_refresh = Inr (), git_sync = Inr ()\<rparr> ''/repo'' ''fix: x'')
       (ExecuteCommand ''git.stageAll'') = 0
   \<and> count_list
       (commit
         \<lparr>commitizen = \<lparr>autoSync = False, subjectLength = 50, showOutputChannel = Off\<rparr>,
          enableSmartCommit = Some False, git_diff = Inr \<lparr>code = 0, stdout = []\<rparr>,
          git_stageAll = Inr (), git_commit = Inr \<lparr>code = 0, stdout = ''done''\<rparr>,
          git_refresh = Inr (), git_sync = Inr ()\<rparr> ''/repo'' ''fix: x'')
       (ExecuteCommand ''git.stageAll'') = 0"
proof -
  let ?h = "\<lambda>smart staged.
       \<lparr>commitizen = \<lparr>autoSync = False, subjectLength = 50, showOutputChannel = Off\<rparr>,
        enableSmartCommit = Some smart, git_diff = Inr \<lparr>code = 0, stdout = staged\<rparr>,
        git_stageAll = Inr (), git_commit = Inr \<lparr>code = 0, stdout = ''done''\<rparr>,
        git_refresh = Inr (), git_sync = Inr ()\<rparr>"
  have run1: "commit (?h True []) ''/repo'' ''fix: x''
     = [AppendLine (''About to commit '' @ [CHR 0x27] @ ''fix: x'' @ [CHR 0x27]),
        Execa ''git'' [''diff'', ''--name-only'', ''--cached''] ''/repo'',
        AppendLine ''Staging all files (enableSmartCommit enabled with nothing staged)'',
        ExecuteCommand ''git.stageAll'',
        Execa ''git'' [''commit'', ''-m'', ''fix: x''] ''/repo'',
        ExecuteCommand ''git.refresh'',
        AppendLine ''done'']"
    by (simp add: commit_def commit_try_def conditionallyStageFiles_def hasStagedFiles_def
        hasOutput_def shouldShowOutput_def)
  have run2: "commit (?h True ''a.txt'') ''/repo'' ''fix: x''
     = [AppendLine (''About to commit '' @ [CHR 0x27] @ ''fix: x'' @ [CHR 0x27]),
        Execa ''git'' [''diff'', ''--name-only'', ''--cached''] ''/repo'',
        Execa ''git'' [''commit'', ''-m'', ''fix: x''] ''/repo'',
        ExecuteCommand ''git.refresh'',
        AppendLine ''done'']"
    by (simp add: commit_def commit_try_def conditionallyStageFiles_def hasStagedFiles_def
        hasOutput_def shouldShowOutput_def)
  have c1: "count_list (commit (?h True []) ''/repo'' ''fix: x'') (ExecuteCommand ''git.stageAll'') = 1"
    using stageAll_invoked [of "?h True []" "''/repo''" "''fix: x''"] by simp
  have c2: "count_list (commit (?h True ''a.txt'') ''/repo'' ''fix: x'') (ExecuteCommand ''git.stageAll'') = 0"
    using stageAll_invoked [of "?h True ''a.txt''" "''/repo''" "''fix: x''"] by simp
  have c3: "count_list (commit (?h False []) ''/repo'' ''fix: x'') (ExecuteCommand ''git.stageAll'') = 0"
    using stageAll_invoked [of "?h False []" "''/repo''" "''fix: x''"] by simp
  from run1 c1 run2 c2 c3 show ?thesis by simp
qed

subsection \<open>Showing the output channel\<close>

text \<open>
  When the channel is brought to the foreground, in terms of the host: no awaited call
  was rejected, the commit wrote to its standard output, and \<open>shouldShowOutput\<close> holds of
  the setting and the exit status.
\<close>

lemma channel_shown_iff:
  "ChannelShow \<in> set (commit h cwd msg) \<longleftrightarrow>
     (\<exists>result. git_commit h = Inr result
        \<and> (enableSmartCommit h = Some True \<longrightarrow>
             (\<exists>d. git_diff h = Inr d \<and> (stdout d = [] \<longrightarrow> git_stageAll h = Inr ())))
        \<and> git_refresh h = Inr ()
        \<and> (autoSync (commitizen h) \<longrightarrow> git_sync h = Inr ())
        \<and> stdout result \<noteq> []
        \<and> (showOutputChannel (commitizen h) = Always
           \<or> showOutputChannel (commitizen h) = OnError \<and> code result \<noteq> 0))"
  by (cases "conditionallyStageFiles h cwd")
     (auto simp: commit_def commit_try_def conditionallyStageFiles_def hasStagedFiles_def
       hasOutput_def shouldShowOutput_def Let_def
       split: sum.splits prod.splits if_splits)

text \<open>A call of \<^verbatim>\<open>execa\<close> that resolves has the exit status 0, so with the setting \<open>onError\<close>
  the channel is never brought to the foreground.\<close>

lemma onError_never_shown:
  assumes "execa_contract h" and "showOutputChannel (commitizen h) = OnError"
  shows "ChannelShow \<notin> set (commit h cwd msg)"
  using assms
  by (auto simp: channel_shown_iff execa_contract_def)

text \<open>
  Claim C5 says that with the setting \<open>onError\<close> a commit whose exit status is non-zero
  brings the output channel to the foreground. A \<^verbatim>\<open>git commit\<close> that exits with a non-zero
  status is a rejected call: \<open>commit\<close> leaves its \<^verbatim>\<open>try\<close> block there, shows the error
  notification and writes the message and the stack to the channel, and does not bring
  the channel to the foreground.
\<close>

theorem onError_failed_commit:
  "execa_contract
     \<lparr>commitizen = \<lparr>autoSync = False, subjectLength = 50, showOutputChannel = OnError\<rparr>,
      enableSmartCommit = None, git_diff = Inr \<lparr>code = 0, stdout = []\<rparr>,
      git_stageAll = Inr (),
      git_commit = Inl \<lparr>failure_message = ''Command failed: git commit -m fix: x'',
                         failure_stack = ''Error: Command failed: git commit -m fix: x''\<rparr>,
      git_refresh = Inr (), git_sync = Inr ()\<rparr>
   \<and> commit
     \<lparr>commitizen = \<lparr>autoSync = False, subjectLength = 50, showOutputChannel = OnError\<rparr>,
      enableSmartCommit = None, git_diff = Inr \<lparr>code = 0, stdout = []\<rparr>,
      git_stageAll = Inr (),
      git_commit = Inl \<lparr>failure_message = ''Command failed: git commit -m fix: x'',
                         failure_stack = ''Error: Command failed: git commit -m fix: x''\<rparr>,
      git_refresh = Inr (), git_sync = Inr ()\<rparr> ''/repo'' ''fix: x''
   = [AppendLine (''About to commit '' @ [CHR 0x27] @ ''fix: x'' @ [CHR 0x27]),
      Execa ''git'' [''commit'', ''-m'', ''fix: x''] ''/repo'',
      ShowErrorMessage ''Command failed: git commit -m fix: x'',
      AppendLine ''Command failed: git commit -m fix: x'',
      AppendLine ''Error: Command failed: git commit -m fix: x'']
   \<and> ChannelShow \<notin> set
       (commit
         \<lparr>commitizen = \<lparr>autoSync = False, subjectLength = 50, showOutputChannel = OnError\<rparr>,
          enableSmartCommit = None, git_diff = Inr \<lparr>code = 0, stdout = []\<rparr>,
          git_stageAll = Inr (),
          git_commit = Inl \<lparr>failure_message = ''Command failed: git commit -m fix: x'',
                             failure_stack = ''Error: Command failed: git commit -m fix: x''\<rparr>,
          git_refresh = Inr (), git_sync = Inr ()\<rparr> ''/repo'' ''fix: x'')"
  by (simp add: commit_def commit_try_def conditionallyStageFiles_def execa_contract_def)

text \<open>The rest of the claim holds of a commit that resolves: with the setting \<open>always\<close> a
  commit that wrote a line brings the channel to the foreground, and with \<open>onError\<close> a
  commit with exit status 0 does not.\<close>

lemma channel_shown_examples:
  "ChannelShow \<in> set
     (commit
       \<lparr>commitizen = \<lparr>autoSync = False, subjectLength = 50, showOutputChannel = Always\<rparr>,
        enableSmartCommit = None, git_diff = Inr \<lparr>code = 0, stdout = []\<rparr>,
        git_stageAll = Inr (), git_commit = Inr \<lparr>code = 0, stdout = ''1 file changed''\<rparr>,
        git_refresh = Inr (), git_sync = Inr ()\<rparr> ''/repo'' ''fix: x'')
   \<and> ChannelShow \<notin> set
     (commit
       \<lparr>commitizen = \<lparr>autoSync = False, subjectLength = 50, showOutputChannel = OnError\<rparr>,
        enableSmartCommit = None, git_diff = Inr \<lparr>code = 0, stdout = []\<rparr>,
        git_stageAll = Inr (), git_commit = Inr \<lparr>code = 0, stdout = ''1 file changed''\<rparr>,
        git_refresh = Inr (), git_sync = Inr ()\<rparr> ''/repo'' ''fix: x'')"
  by (simp add: channel_shown_iff)

section \<open>The body\<close>

subsection \<open>Splitting and joining\<close>

lemma split_on_not_Nil: "split_on c s \<noteq> []"
  by (induction s) (auto split: list.splits)

lemma join_split_on: "join [c] (split_on c s) = s"
proof (induction s)
  case Nil
  show ?case by simp
next
  case (Cons x xs)
  show ?case
  proof (cases "x = c")
    case True
    with Cons show ?thesis
      by (cases "split_on c xs") (simp_all add: split_on_not_Nil)
  next
    case False
    with Cons show ?thesis
      by (cases "split_on c xs"; cases "tl (split_on c xs)") (auto simp: split_on_not_Nil)
  qed
qed

lemma split_on_pieces: "w \<in> set (split_on c s) \<Longrightarrow> c \<notin> set w \<and> set w \<subseteq> set s"
  by (induction s arbitrary: w) (fastforce split: if_splits list.splits)+

lemma split_on_without: "c \<notin> set x \<Longrightarrow> split_on c x = [x]"
  by (induction x) auto

lemma split_on_append: "c \<notin> set x \<Longrightarrow> split_on c (x @ c # rest) = x # split_on c rest"
  by (induction x) auto

lemma split_on_join:
  "ws \<noteq> [] \<Longrightarrow> \<forall>w \<in> set ws. c \<notin> set w \<Longrightarrow> split_on c (join [c] ws) = ws"
  by (induction "[c]" ws rule: join.induct) (simp_all add: split_on_without split_on_append)

lemma join_replace: "join [d] (split_on c s) = map (\<lambda>x. if x = c then d else x) s"
proof (induction s)
  case Nil
  show ?case by simp
next
  case (Cons x xs)
  then show ?case
    by (cases "split_on c xs"; cases "tl (split_on c xs)") (auto simp: split_on_not_Nil)
qed

lemma chunks_length: "0 < cols \<Longrightarrow> p \<in> set (chunks cols w) \<Longrightarrow> length p \<le> cols"
  by (induction cols w rule: chunks.induct) (subst (asm) (2) chunks.simps, auto split: if_splits)

lemma chunks_short: "length w \<le> cols \<Longrightarrow> chunks cols w = [w]"
  by (simp add: chunks.simps)

lemma chunks_not_Nil: "chunks cols w \<noteq> []"
  by (subst chunks.simps) simp

lemma chunks_chars: "p \<in> set (chunks cols w) \<Longrightarrow> set p \<subseteq> set w"
  by (induction cols w rule: chunks.induct)
     (subst (asm) (2) chunks.simps, auto split: if_splits dest: in_set_takeD in_set_dropD)


lemma wrap_words_length:
  "0 < cols \<Longrightarrow> length row \<le> cols \<Longrightarrow> r \<in> set (wrap_words cols row ws) \<Longrightarrow> length r \<le> cols"
proof (induction ws arbitrary: row)
  case Nil
  then show ?case by simp
next
  case (Cons w ws)
  show ?case
  proof (cases "length row + 1 + length w \<le> cols")
    case True
    with Cons.prems Cons.IH [of "row @ '' '' @ w"] show ?thesis by simp
  next
    case False
    have l: "length (last (chunks cols w)) \<le> cols"
      using Cons.prems(1) chunks_length [of cols "last (chunks cols w)" w] chunks_not_Nil [of cols w]
      by simp
    from False Cons.prems(3) consider "r = row" | "r \<in> set (butlast (chunks cols w))"
      | "r \<in> set (wrap_words cols (last (chunks cols w)) ws)"
      by auto
    then show ?thesis
    proof cases
      case 1
      with Cons.prems show ?thesis by simp
    next
      case 2
      then have "r \<in> set (chunks cols w)" by (rule in_set_butlastD)
      with Cons.prems(1) show ?thesis by (rule chunks_length)
    next
      case 3
      with Cons.IH [OF Cons.prems(1) l] show ?thesis .
    qed
  qed
qed

lemma join_Cons_Cons: "join sep (x # y # ys) = x @ sep @ join sep (y # ys)"
  by simp

lemma join_row: "join [c] ((row @ c # w) # ws) = row @ c # join [c] (w # ws)"
  by (cases ws) simp_all

lemma concat_singletons: "\<forall>x \<in> set xs. f x = [x] \<Longrightarrow> concat (map f xs) = xs"
  by (induction xs) simp_all

lemma length_join_Cons: "length w \<le> length (join sep (w # ws))"
  by (cases ws) simp_all

lemma wrap_words_fits:
  "length (join '' '' (row # ws)) \<le> cols \<Longrightarrow> wrap_words cols row ws = [join '' '' (row # ws)]"
proof (induction ws arbitrary: row)
  case Nil
  then show ?case by simp
next
  case (Cons w ws)
  have "length row + 1 + length w \<le> length (join '' '' (row # w # ws))"
    using length_join_Cons [of w "'' ''" ws] by simp
  with Cons.prems have fits: "length row + 1 + length w \<le> cols" by simp
  have "length (join '' '' ((row @ '' '' @ w) # ws)) \<le> cols"
    using Cons.prems by (simp add: join_row)
  from Cons.IH [OF this] fits show ?case
    by (simp add: join_row)
qed

lemma wrap_words_chars:
  "r \<in> set (wrap_words cols row ws) \<Longrightarrow> c \<noteq> CHR '' '' \<Longrightarrow> c \<notin> set row \<Longrightarrow> \<forall>w \<in> set ws. c \<notin> set w
    \<Longrightarrow> c \<notin> set r"
proof (induction ws arbitrary: row)
  case Nil
  then show ?case by simp
next
  case (Cons w ws)
  have cw: "c \<notin> set w" using Cons.prems(4) by simp
  have rest: "\<forall>w \<in> set ws. c \<notin> set w" using Cons.prems(4) by simp
  have ch: "p \<in> set (chunks cols w) \<Longrightarrow> c \<notin> set p" for p
    using chunks_chars [of p cols w] cw by auto
  show ?case
  proof (cases "length row + 1 + length w \<le> cols")
    case True
    with Cons.prems(1) have "r \<in> set (wrap_words cols (row @ '' '' @ w) ws)" by simp
    moreover have "c \<notin> set (row @ '' '' @ w)" using Cons.prems(2,3) cw by simp
    ultimately show ?thesis using Cons.IH Cons.prems(2) rest by blast
  next
    case False
    from False Cons.prems(1) consider "r = row" | "r \<in> set (butlast (chunks cols w))"
      | "r \<in> set (wrap_words cols (last (chunks cols w)) ws)"
      by auto
    then show ?thesis
    proof cases
      case 1
      with Cons.prems show ?thesis by simp
    next
      case 2
      then have "r \<in> set (chunks cols w)" by (rule in_set_butlastD)
      then show ?thesis by (rule ch)
    next
      case 3
      have "c \<notin> set (last (chunks cols w))"
        using ch [of "last (chunks cols w)"] chunks_not_Nil [of cols w] by simp
      with 3 Cons.IH Cons.prems(2) rest show ?thesis by blast
    qed
  qed
qed

lemma wrap_words_not_Nil: "wrap_words cols row ws \<noteq> []"
  by (induction ws arbitrary: row) simp_all

lemma wrap_line_not_Nil: "wrap_line cols line \<noteq> []"
  by (simp add: wrap_line_def wrap_words_not_Nil split: list.splits)

lemma wrap_line_length:
  assumes "0 < cols" and "r \<in> set (wrap_line cols line)"
  shows "length r \<le> cols"
proof -
  obtain w ws where s: "split_on CHR '' '' line = w # ws"
    using split_on_not_Nil [of "CHR '' ''" line] by (cases "split_on CHR '' '' line") auto
  have l: "length (last (chunks cols w)) \<le> cols"
    using assms(1) chunks_length [of cols "last (chunks cols w)" w] chunks_not_Nil [of cols w]
    by simp
  from assms(2) s consider "r \<in> set (butlast (chunks cols w))"
    | "r \<in> set (wrap_words cols (last (chunks cols w)) ws)"
    by (auto simp: wrap_line_def)
  then show ?thesis
  proof cases
    case 1
    then have "r \<in> set (chunks cols w)" by (rule in_set_butlastD)
    with assms(1) show ?thesis by (rule chunks_length)
  next
    case 2
    with wrap_words_length [OF assms(1) l] show ?thesis .
  qed
qed

lemma wrap_line_fits:
  assumes "length line \<le> cols"
  shows "wrap_line cols line = [line]"
proof -
  obtain w ws where s: "split_on CHR '' '' line = w # ws"
    using split_on_not_Nil [of "CHR '' ''" line] by (cases "split_on CHR '' '' line") auto
  have j: "join '' '' (w # ws) = line"
    using join_split_on [of "CHR '' ''" line] s by simp
  have "length w \<le> cols"
    using length_join_Cons [of w "'' ''" ws] j assms by simp
  then have c: "chunks cols w = [w]" by (rule chunks_short)
  have "wrap_words cols w ws = [join '' '' (w # ws)]"
    using j assms by (intro wrap_words_fits) simp
  with s c j show ?thesis by (simp add: wrap_line_def)
qed

lemma wrap_line_chars:
  assumes "r \<in> set (wrap_line cols line)" and "c \<noteq> CHR '' ''" and "c \<notin> set line"
  shows "c \<notin> set r"
proof -
  obtain w ws where s: "split_on CHR '' '' line = w # ws"
    using split_on_not_Nil [of "CHR '' ''" line] by (cases "split_on CHR '' '' line") auto
  have words: "\<forall>v \<in> set (w # ws). c \<notin> set v"
    using split_on_pieces [of _ "CHR '' ''" line] s assms(3) by fastforce
  have ch: "p \<in> set (chunks cols w) \<Longrightarrow> c \<notin> set p" for p
    using chunks_chars [of p cols w] words by auto
  from assms(1) s consider "r \<in> set (butlast (chunks cols w))"
    | "r \<in> set (wrap_words cols (last (chunks cols w)) ws)"
    by (auto simp: wrap_line_def)
  then show ?thesis
  proof cases
    case 1
    then have "r \<in> set (chunks cols w)" by (rule in_set_butlastD)
    then show ?thesis by (rule ch)
  next
    case 2
    have "c \<notin> set (last (chunks cols w))"
      using ch [of "last (chunks cols w)"] chunks_not_Nil [of cols w] by simp
    with 2 wrap_words_chars [of r cols "last (chunks cols w)" ws c] assms(2) words
    show ?thesis by simp
  qed
qed

text \<open>The lines of the wrapped text are the rows made from its lines.\<close>

lemma lines_of_wrap:
  "split_on CHR ''\<newline>'' (wrap t cols) =
     concat (map (wrap_line cols) (split_on CHR ''\<newline>'' t))"
proof -
  let ?rows = "concat (map (wrap_line cols) (split_on CHR ''\<newline>'' t))"
  have "?rows \<noteq> []"
    using split_on_not_Nil [of "CHR ''\<newline>''" t] wrap_line_not_Nil
    by (cases "split_on CHR ''\<newline>'' t") auto
  moreover have "\<forall>r \<in> set ?rows. CHR ''\<newline>'' \<notin> set r"
  proof
    fix r assume "r \<in> set ?rows"
    then obtain line where l: "line \<in> set (split_on CHR ''\<newline>'' t)"
      and r: "r \<in> set (wrap_line cols line)" by auto
    from l have "CHR ''\<newline>'' \<notin> set line" by (simp add: split_on_pieces)
    with r show "CHR ''\<newline>'' \<notin> set r" by (intro wrap_line_chars [of r cols line]) simp_all
  qed
  ultimately show ?thesis
    unfolding wrap_def by (rule split_on_join)
qed

lemma wrap_lines_length:
  assumes "0 < cols" and "l \<in> set (split_on CHR ''\<newline>'' (wrap t cols))"
  shows "length l \<le> cols"
  using assms by (auto simp: lines_of_wrap intro: wrap_line_length)

lemma wrap_fits:
  assumes "\<forall>l \<in> set (split_on CHR ''\<newline>'' t). length l \<le> cols"
  shows "wrap t cols = t"
proof -
  have "map (wrap_line cols) (split_on CHR ''\<newline>'' t) = map (\<lambda>l. [l]) (split_on CHR ''\<newline>'' t)"
    using assms by (simp add: wrap_line_fits)
  then have "concat (map (wrap_line cols) (split_on CHR ''\<newline>'' t)) = split_on CHR ''\<newline>'' t"
    by (simp add: concat_singletons)
  then show ?thesis
    by (simp add: wrap_def join_split_on)
qed

lemma wrap_idem: "0 < cols \<Longrightarrow> wrap (wrap t cols) cols = wrap t cols"
  by (rule wrap_fits) (simp add: wrap_lines_length)

text \<open>A token of 80 characters is cut after the 72nd.\<close>

lemma wrap_long_token:
  "wrap (replicate 80 CHR ''a'') 72 = replicate 72 CHR ''a'' @ ''\<newline>'' @ replicate 8 CHR ''a''"
  by code_simp

text \<open>
  Claim C8. The body that is stored is the input with every \<open>|\<close> replaced by a line
  feed, hard-wrapped to 72 columns: every line of the stored text has at most 72
  characters. Wrapping is idempotent: a text whose lines all have at most 72 characters
  is returned as it is, so wrapping a wrapped text changes nothing.
\<close>

theorem getBody_stores_wrapped:
  assumes "next_step s" and "\<not> shouldSkip (czConfig s) ''body''"
  shows "body (snd (getBody s (Some input)))
           = Str (wrap (map (\<lambda>c. if c = CHR ''|'' then CHR ''\<newline>'' else c) input) 72)
       \<and> (\<forall>l \<in> set (split_on CHR ''\<newline>''
                        (wrap (map (\<lambda>c. if c = CHR ''|'' then CHR ''\<newline>'' else c) input) 72)).
            length l \<le> 72)
       \<and> (\<forall>t. (\<forall>l \<in> set (split_on CHR ''\<newline>'' t). length l \<le> 72) \<longrightarrow> wrap t 72 = t)
       \<and> (\<forall>t. wrap (wrap t 72) 72 = wrap t 72)"
proof -
  have "join ''\<newline>'' (split_on CHR ''|'' input)
          = map (\<lambda>c. if c = CHR ''|'' then CHR ''\<newline>'' else c) input"
    by (rule join_replace)
  with assms have "body (snd (getBody s (Some input)))
           = Str (wrap (map (\<lambda>c. if c = CHR ''|'' then CHR ''\<newline>'' else c) input) 72)"
    by (simp add: getBody_def ask_def)
  moreover have "\<forall>l \<in> set (split_on CHR ''\<newline>''
                        (wrap (map (\<lambda>c. if c = CHR ''|'' then CHR ''\<newline>'' else c) input) 72)).
            length l \<le> 72"
    by (simp add: wrap_lines_length)
  moreover have "\<forall>t. (\<forall>l \<in> set (split_on CHR ''\<newline>'' t). length l \<le> 72) \<longrightarrow> wrap t 72 = t"
    by (simp add: wrap_fits)
  moreover have "\<forall>t. wrap (wrap t 72) 72 = wrap t 72"
    by (simp add: wrap_idem)
  ultimately show ?thesis by blast
qed

theorem getBody_stores_wrapped_witness:
  "next_step (new_ccm None) \<and> \<not> shouldSkip (czConfig (new_ccm None)) ''body''
   \<and> body (snd (getBody (new_ccm None) (Some ''first line|second line'')))
       = Str ''first line\<newline>second line''
   \<and> wrap ''first line\<newline>second line'' 72 = ''first line\<newline>second line''"
proof -
  have n: "next_step (new_ccm None)"
    by (simp add: new_ccm_def)
  have k: "\<not> shouldSkip (czConfig (new_ccm None)) ''body''"
    by (simp add: new_ccm_def shouldSkip_def)
  have l: "\<forall>l \<in> set (split_on CHR ''\<newline>'' ''first line\<newline>second line''). length l \<le> 72"
    by simp
  from getBody_stores_wrapped [OF n k, of "''first line|second line''"] l
  have w: "wrap ''first line\<newline>second line'' 72 = ''first line\<newline>second line''"
    by blast
  from getBody_stores_wrapped [OF n k, of "''first line|second line''"] w
  have "body (snd (getBody (new_ccm None) (Some ''first line|second line'')))
          = Str ''first line\<newline>second line''"
    by simp
  with n k w show ?thesis by blast
qed

end
